theory Spec2Isabelle
  imports Complex_Main
begin

section \<open>Double-precision values\<close>

text \<open>
  A C++ \<open>double\<close> is modelled as a real number or NaN: \<open>Some x\<close> is the number \<open>x\<close>,
  \<open>None\<close> is NaN. Arithmetic is exact (no rounding, no overflow); NaN propagates through
  every operation and every ordered comparison with NaN is false, as in IEEE 754.
  The infinities are not values of the model: an operation whose IEEE 754 result is
  infinite (a nonzero number divided by zero, zero raised to a negative power) has the
  result \<open>None\<close>, and where the sources can divide by zero the model says what the
  comparison of the quotient gives (\<open>d_lt_quot\<close> below) or the theorem excludes the zero
  divisor.
\<close>

type_synonym double = "real option"

definition d_add :: "double \<Rightarrow> double \<Rightarrow> double" where
  "d_add a b = (case a of None \<Rightarrow> None | Some x \<Rightarrow> (case b of None \<Rightarrow> None | Some y \<Rightarrow> Some (x + y)))"

definition d_sub :: "double \<Rightarrow> double \<Rightarrow> double" where
  "d_sub a b = (case a of None \<Rightarrow> None | Some x \<Rightarrow> (case b of None \<Rightarrow> None | Some y \<Rightarrow> Some (x - y)))"

definition d_mul :: "double \<Rightarrow> double \<Rightarrow> double" where
  "d_mul a b = (case a of None \<Rightarrow> None | Some x \<Rightarrow> (case b of None \<Rightarrow> None | Some y \<Rightarrow> Some (x * y)))"

definition d_div :: "double \<Rightarrow> double \<Rightarrow> double" where
  "d_div a b = (case a of None \<Rightarrow> None | Some x \<Rightarrow>
     (case b of None \<Rightarrow> None | Some y \<Rightarrow> if y = 0 then None else Some (x / y)))"

definition d_neg :: "double \<Rightarrow> double" where
  "d_neg a = (case a of None \<Rightarrow> None | Some x \<Rightarrow> Some (- x))"

definition d_lt :: "double \<Rightarrow> double \<Rightarrow> bool" where
  "d_lt a b = (case a of None \<Rightarrow> False | Some x \<Rightarrow> (case b of None \<Rightarrow> False | Some y \<Rightarrow> x < y))"

definition d_le :: "double \<Rightarrow> double \<Rightarrow> bool" where
  "d_le a b = (case a of None \<Rightarrow> False | Some x \<Rightarrow> (case b of None \<Rightarrow> False | Some y \<Rightarrow> x \<le> y))"

definition d_gt :: "double \<Rightarrow> double \<Rightarrow> bool" where
  "d_gt a b = d_lt b a"

definition d_ge :: "double \<Rightarrow> double \<Rightarrow> bool" where
  "d_ge a b = d_le b a"

definition d_eq :: "double \<Rightarrow> double \<Rightarrow> bool" where
  "d_eq a b = (case a of None \<Rightarrow> False | Some x \<Rightarrow> (case b of None \<Rightarrow> False | Some y \<Rightarrow> x = y))"

definition isnan :: "double \<Rightarrow> bool" where
  "isnan a = (a = None)"

definition d_abs :: "double \<Rightarrow> double" where
  "d_abs a = (case a of None \<Rightarrow> None | Some x \<Rightarrow> Some \<bar>x\<bar>)"

definition d_sqrt :: "double \<Rightarrow> double" where
  "d_sqrt a = (case a of None \<Rightarrow> None | Some x \<Rightarrow> if x < 0 then None else Some (sqrt x))"

definition d_exp :: "double \<Rightarrow> double" where
  "d_exp a = (case a of None \<Rightarrow> None | Some x \<Rightarrow> Some (exp x))"

text \<open>
  \<open>pow(x, y)\<close> of \<open><cmath>\<close> for a non-integer exponent \<open>y\<close>, the only use in the
  sources: a negative base gives NaN, base zero gives zero for a positive exponent and
  no number of the model for a negative one.
\<close>

definition d_pow :: "double \<Rightarrow> real \<Rightarrow> double" where
  "d_pow a y = (case a of None \<Rightarrow> None | Some x \<Rightarrow>
     if 0 < x then Some (x powr y) else if x = 0 \<and> 0 < y then Some 0 else None)"

section \<open>Atmosphere and drag (liftoff-physics/drag.cpp)\<close>

definition calc_drag :: "double \<Rightarrow> double \<Rightarrow> double \<Rightarrow> double \<Rightarrow> double" where
  "calc_drag cd rho v a = d_mul (d_div (d_mul (d_mul (d_mul cd rho) v) v) (Some 2)) a"

definition calc_rho_ideal_state :: "double \<Rightarrow> double \<Rightarrow> double" where
  "calc_rho_ideal_state p T = d_div p (d_mul (Some 0.2869) (d_add T (Some 273.1)))"

definition calc_pressure_earth :: "double \<Rightarrow> double" where
  "calc_pressure_earth alt =
    (if d_ge alt (Some 25000) then
       (let T = d_add (Some (- 131.21)) (d_mul (Some 0.00299) alt)
        in d_mul (Some 2.488)
             (d_pow (d_div (d_add T (Some 273.1)) (Some 216.6)) (- 11.388)))
     else if d_ge alt (Some 11000) \<and> d_lt alt (Some 25000) then
       d_mul (Some 22.65)
         (d_exp (d_sub (Some 1.73) (d_mul (Some 0.000157) alt)))
     else if d_lt alt (Some 11000) then
       (let T = d_sub (Some 15.04) (d_mul (Some 0.00649) alt)
        in d_mul (Some 101.29)
             (d_pow (d_div (d_add T (Some 273.1)) (Some 288.08)) 5.256))
     else Some (- 1))"

definition calc_rho_earth :: "double \<Rightarrow> double" where
  "calc_rho_earth alt =
    (if d_ge alt (Some 25000) then
       (let T = d_add (Some (- 131.21)) (d_mul (Some 0.00299) alt);
            p = d_mul (Some 2.488)
                  (d_pow (d_div (d_add T (Some 273.1)) (Some 216.6)) (- 11.388))
        in calc_rho_ideal_state p T)
     else if d_ge alt (Some 11000) \<and> d_lt alt (Some 25000) then
       (let T = Some (- 56.46);
            p = d_mul (Some 22.65)
                  (d_exp (d_sub (Some 1.73) (d_mul (Some 0.000157) alt)))
        in calc_rho_ideal_state p T)
     else if d_lt alt (Some 11000) then
       (let T = d_sub (Some 15.04) (d_mul (Some 0.00649) alt);
            p = d_mul (Some 101.29)
                  (d_pow (d_div (d_add T (Some 273.1)) (Some 288.08)) 5.256)
        in calc_rho_ideal_state p T)
     else Some (- 1))"

definition calc_drag_earth :: "double \<Rightarrow> double \<Rightarrow> double \<Rightarrow> double \<Rightarrow> double" where
  "calc_drag_earth cd alt v a = calc_drag cd (calc_rho_earth alt) v a"

text \<open>A double that is a positive number (neither NaN nor a value \<open>\<le> 0\<close>).\<close>

definition d_pos :: "double \<Rightarrow> bool" where
  "d_pos a = (case a of None \<Rightarrow> False | Some x \<Rightarrow> 0 < x)"

section \<open>Vectors and the velocity command (liftoff-cli/main.cpp)\<close>

text \<open>
  \<open>liftoff::vector\<close> holds three double components; the default-constructed vector is
  the zero vector.
\<close>

record vector =
  get_x :: double
  get_y :: double
  get_z :: double

definition zero_vector :: vector where
  "zero_vector = \<lparr>get_x = Some 0, get_y = Some 0, get_z = Some 0\<rparr>"

text \<open>
  The controller state \<open>adjust_velocity\<close> reads: the fixed time step, the setpoint and
  the last observed state.
\<close>

record pidf_controller =
  get_time_step :: real
  get_setpoint :: double
  get_last_state :: double

text \<open>
  Modelled from the spec: \<open>pidf_controller::compute_error\<close> is declared in
  pidf_controller.h, which is not among the sources. The specification gives the error
  that the vertical command closes within one step as \<open>setpoint - last_state\<close>.
\<close>

definition compute_error :: "pidf_controller \<Rightarrow> double" where
  "compute_error pidf = d_sub (get_setpoint pidf) (get_last_state pidf)"

definition signum :: "double \<Rightarrow> int" where
  "signum x = (if d_gt x (Some 0) then 1 else 0) - (if d_lt x (Some 0) then 1 else 0)"

definition adjust_velocity :: "pidf_controller \<Rightarrow> vector \<Rightarrow> double \<Rightarrow> vector" where
  "adjust_velocity pidf cur_v mag_v =
    (if d_eq (get_setpoint pidf) (Some 0) then
       \<lparr>get_x = Some 0, get_y = mag_v, get_z = Some 0\<rparr>
     else
       (let error = compute_error pidf;
            target_y_velocity = d_div error (Some (get_time_step pidf));
            target_y_velocity =
              (if d_gt (d_abs target_y_velocity) mag_v
               then d_mul (Some (of_int (signum target_y_velocity))) mag_v
               else target_y_velocity);
            target_x_velocity =
              d_sqrt (d_sub (d_mul mag_v mag_v) (d_mul target_y_velocity target_y_velocity))
        in \<lparr>get_x = target_x_velocity, get_y = target_y_velocity, get_z = Some 0\<rparr>))"

section \<open>Telemetry flight profile (liftoff-cli/telemetry_flight_profile.h)\<close>

text \<open>
  A \<open>std::map<double, double>\<close> is an association list kept in ascending key order,
  the order in which the map is iterated. Times are finite numbers; the stored values
  are doubles and may be NaN.
\<close>

type_synonym series = "(real \<times> double) list"

record telemetry_flight_profile =
  time_step :: real
  current_time :: real
  ballistic_range :: double
  velocity :: series
  altitude :: series

text \<open>
  Modelled from the spec: the accessors \<open>put_altitude(t, v)\<close>, \<open>get_altitude(t)\<close> and
  \<open>get_velocity(t)\<close> that main.cpp calls are defined in telemetry_flight_profile.cpp,
  which is not among the sources. By the specification, \<open>put(time, value)\<close>
  inserts or overwrites, and \<open>get(time)\<close> returns the exact value if present, else NaN.
\<close>

fun series_put :: "real \<Rightarrow> double \<Rightarrow> series \<Rightarrow> series" where
  "series_put k v [] = [(k, v)]"
| "series_put k v ((k', v') # m) =
     (if k < k' then (k, v) # (k', v') # m
      else if k = k' then (k, v) # m
      else (k', v') # series_put k v m)"

definition series_get :: "series \<Rightarrow> real \<Rightarrow> double" where
  "series_get m k = (case map_of m k of None \<Rightarrow> None | Some v \<Rightarrow> v)"

definition put_altitude :: "real \<Rightarrow> double \<Rightarrow> telemetry_flight_profile \<Rightarrow> telemetry_flight_profile" where
  "put_altitude t v f = f\<lparr>altitude := series_put t v (altitude f)\<rparr>"

definition put_velocity :: "real \<Rightarrow> double \<Rightarrow> telemetry_flight_profile \<Rightarrow> telemetry_flight_profile" where
  "put_velocity t v f = f\<lparr>velocity := series_put t v (velocity f)\<rparr>"

definition get_altitude :: "telemetry_flight_profile \<Rightarrow> real \<Rightarrow> double" where
  "get_altitude f t = series_get (altitude f) t"

definition get_velocity :: "telemetry_flight_profile \<Rightarrow> real \<Rightarrow> double" where
  "get_velocity f t = series_get (velocity f) t"

section \<open>Altitude and velocity reconciliation (liftoff-cli/main.cpp)\<close>

text \<open>
  The body of the \<open>for\<close> loop of \<open>adjust_altitude\<close>, over the remaining values of the
  counter \<open>i\<close>, with the loop state \<open>(last_t, last_alt, v_integral, fitted)\<close>. The
  \<open>break\<close> returns the profile as it is.
\<close>

fun adjust_altitude_loop ::
  "telemetry_flight_profile \<Rightarrow> real \<Rightarrow> nat list \<Rightarrow>
   real \<times> double \<times> double \<times> telemetry_flight_profile \<Rightarrow> telemetry_flight_profile" where
  "adjust_altitude_loop orig break_even [] (last_t, last_alt, v_integral, fitted) = fitted"
| "adjust_altitude_loop orig break_even (i # is) (last_t, last_alt, v_integral, fitted) =
    (let t = real i * time_step fitted;
         alt = get_altitude fitted t;
         v = get_velocity fitted t;
         dt = time_step fitted;
         v_integral = d_add v_integral (d_mul v (Some dt))
     in if t < break_even then
          adjust_altitude_loop orig break_even is
            (t, v_integral, v_integral, put_altitude t v_integral fitted)
        else
          (let target_error = d_sub (get_altitude orig t) (get_altitude orig last_t);
               target_alt = d_add last_alt target_error
           in if d_ge target_alt alt then fitted
              else adjust_altitude_loop orig break_even is
                     (t, target_alt, v_integral, put_altitude t target_alt fitted)))"

text \<open>
  The loop runs for the counters \<open>i = 0, 1, \<dots>\<close> with \<open>i < max_time / time_step\<close>: these
  are the naturals below the ceiling of the quotient.
\<close>

definition adjust_altitude ::
  "telemetry_flight_profile \<Rightarrow> telemetry_flight_profile \<Rightarrow> real \<Rightarrow> real \<Rightarrow>
   telemetry_flight_profile" where
  "adjust_altitude orig fitted break_even max_time =
     adjust_altitude_loop orig break_even
       [0..<nat \<lceil>max_time / time_step fitted\<rceil>] (0, Some 0, Some 0, fitted)"

text \<open>
  The test \<open>v < target_error / dt\<close> of the scan. At the first step \<open>dt\<close> is zero, where
  IEEE 754 division gives \<open>+\<infinity>\<close> for a positive numerator (every number is below it),
  \<open>-\<infinity>\<close> for a negative one and NaN for zero or NaN.
\<close>

definition d_lt_quot :: "double \<Rightarrow> double \<Rightarrow> real \<Rightarrow> bool" where
  "d_lt_quot v target_error dt =
     (case v of None \<Rightarrow> False | Some x \<Rightarrow>
       (case target_error of None \<Rightarrow> False | Some y \<Rightarrow>
          if dt = 0 then 0 < y else x < y / dt))"

text \<open>
  The \<open>for\<close> loop inside the \<open>while (true)\<close> of \<open>run_telemetry_profile::Calc\<close>, with the
  loop state \<open>(last_t, last_alt)\<close>: the result is the time \<open>t\<close> of the step that
  triggers a correction, or \<open>None\<close> when the pass completes (\<open>valid\<close> stays true).
\<close>

fun scan_profile ::
  "real \<Rightarrow> telemetry_flight_profile \<Rightarrow> real \<Rightarrow> nat list \<Rightarrow> real \<times> double \<Rightarrow> real option" where
  "scan_profile ts fitted last_corrected_time [] (last_t, last_alt) = None"
| "scan_profile ts fitted last_corrected_time (i # is) (last_t, last_alt) =
    (let t = real i * ts;
         alt = get_altitude fitted t;
         dt = t - last_t;
         target_error = d_sub alt last_alt;
         v = get_velocity fitted t
     in if d_lt_quot v target_error dt \<and> last_corrected_time < t then Some t
        else scan_profile ts fitted last_corrected_time is (t, alt))"

text \<open>\<open>total_steps = static_cast<int>(max_time / time_step)\<close>.\<close>

definition total_steps :: "real \<Rightarrow> real \<Rightarrow> nat" where
  "total_steps ts max_time = nat \<lfloor>max_time / ts\<rfloor>"

text \<open>
  The \<open>while (true)\<close> loop of the final conditioning step, with the loop state
  \<open>(last_corrected_time, fitted)\<close>. The source has no bound on the number of passes, so
  the loop is a partial function: \<open>None\<close> is a run that never leaves the loop.
\<close>

partial_function (option) conditioning_loop ::
  "real \<Rightarrow> real \<Rightarrow> telemetry_flight_profile \<Rightarrow> real \<Rightarrow> telemetry_flight_profile \<Rightarrow>
   (real \<times> telemetry_flight_profile) option" where
  "conditioning_loop ts max_time orig last_corrected_time fitted =
    (case scan_profile ts fitted last_corrected_time [0..<total_steps ts max_time] (0, Some 0) of
       None \<Rightarrow> Some (last_corrected_time, fitted)
     | Some t \<Rightarrow> conditioning_loop ts max_time orig t (adjust_altitude orig fitted t max_time))"

text \<open>
  The same loop cut off after a number of passes: \<open>None\<close> when the passes allowed are
  used up before a pass completes without a correction.
\<close>

fun conditioning_passes ::
  "nat \<Rightarrow> real \<Rightarrow> real \<Rightarrow> telemetry_flight_profile \<Rightarrow> real \<Rightarrow> telemetry_flight_profile \<Rightarrow>
   (real \<times> telemetry_flight_profile) option" where
  "conditioning_passes 0 ts max_time orig last_corrected_time fitted = None"
| "conditioning_passes (Suc n) ts max_time orig last_corrected_time fitted =
    (case scan_profile ts fitted last_corrected_time [0..<total_steps ts max_time] (0, Some 0) of
       None \<Rightarrow> Some (last_corrected_time, fitted)
     | Some t \<Rightarrow> conditioning_passes n ts max_time orig t (adjust_altitude orig fitted t max_time))"

text \<open>
  The final conditioning step as \<open>Calc\<close> runs it: \<open>time_step = 1\<close>, \<open>max_time = 500\<close>,
  \<open>orig\<close> a copy of the fitted profile and \<open>last_corrected_time = 0\<close>.
\<close>

definition final_conditioning ::
  "telemetry_flight_profile \<Rightarrow> (real \<times> telemetry_flight_profile) option" where
  "final_conditioning fitted = conditioning_loop 1 500 fitted 0 fitted"

section \<open>Reference notions for the reconciliation\<close>

text \<open>
  The Euler integral of the fitted velocity up to and including step \<open>i\<close>, as the
  specification describes it: the cumulative sum of \<open>velocity(t\<^sub>j) * dt\<close> for \<open>j \<le> i\<close>,
  starting from zero.
\<close>

primrec euler_integral :: "telemetry_flight_profile \<Rightarrow> nat \<Rightarrow> double" where
  "euler_integral f 0 =
     d_add (Some 0) (d_mul (get_velocity f (real 0 * time_step f)) (Some (time_step f)))"
| "euler_integral f (Suc i) =
     d_add (euler_integral f i)
       (d_mul (get_velocity f (real (Suc i) * time_step f)) (Some (time_step f)))"

text \<open>
  The velocity at step \<open>i\<close> is insufficient to reach the recorded altitude delta, in the
  words of the specification: \<open>velocity[t] < (altitude[t] - altitude[t-1]) / dt\<close>.
\<close>

definition insufficient_velocity :: "real \<Rightarrow> telemetry_flight_profile \<Rightarrow> nat \<Rightarrow> bool" where
  "insufficient_velocity ts f i =
     d_lt (get_velocity f (real i * ts))
       (d_div (d_sub (get_altitude f (real i * ts)) (get_altitude f (real (i - 1) * ts)))
          (Some ts))"

text \<open>The profile with the altitude of the first \<open>k\<close> steps replaced by the integral.\<close>

primrec integral_prefix :: "telemetry_flight_profile \<Rightarrow> nat \<Rightarrow> telemetry_flight_profile" where
  "integral_prefix f 0 = f"
| "integral_prefix f (Suc k) =
     put_altitude (real k * time_step f) (euler_integral f k) (integral_prefix f k)"

text \<open>The state of the loop of \<open>adjust_altitude\<close> on entry to step \<open>k\<close> of the integration phase.\<close>

definition integration_state ::
  "telemetry_flight_profile \<Rightarrow> nat \<Rightarrow> real \<times> double \<times> double \<times> telemetry_flight_profile" where
  "integration_state f k =
     (case k of 0 \<Rightarrow> (0, Some 0, Some 0, f)
      | Suc j \<Rightarrow> (real j * time_step f, euler_integral f j, euler_integral f j,
                   integral_prefix f (Suc j)))"

text \<open>
  The translated altitude of step \<open>i\<close> in a translation phase that starts at step \<open>k\<close>
  with the loop state \<open>(lt, la)\<close>: the last written value plus the change of the original
  profile since the last step.
\<close>

definition step_target ::
  "telemetry_flight_profile \<Rightarrow> real \<Rightarrow> telemetry_flight_profile \<Rightarrow> nat \<Rightarrow> double \<Rightarrow> real \<Rightarrow>
   nat \<Rightarrow> double" where
  "step_target orig dt r k la lt i =
     d_add (if i = k then la else get_altitude r (real (i - 1) * dt))
       (d_sub (get_altitude orig (real i * dt))
          (get_altitude orig (if i = k then lt else real (i - 1) * dt)))"

text \<open>
  \<open>r\<close> is the profile \<open>g\<close> after a translation phase over the steps \<open>k \<le> i < s\<close> that
  stopped at step \<open>s\<close> (at the end of the loop when \<open>s = n\<close>).
\<close>

definition translated ::
  "telemetry_flight_profile \<Rightarrow> real \<Rightarrow> telemetry_flight_profile \<Rightarrow> telemetry_flight_profile \<Rightarrow>
   nat \<Rightarrow> double \<Rightarrow> real \<Rightarrow> nat \<Rightarrow> nat \<Rightarrow> bool" where
  "translated orig dt g r k la lt n s \<longleftrightarrow>
     k \<le> s \<and> s \<le> n \<and>
     (\<forall>i. k \<le> i \<and> i < s \<longrightarrow>
        get_altitude r (real i * dt) = step_target orig dt r k la lt i \<and>
        \<not> d_ge (get_altitude r (real i * dt)) (get_altitude g (real i * dt))) \<and>
     (s < n \<longrightarrow> d_ge (step_target orig dt r k la lt s) (get_altitude g (real s * dt))) \<and>
     (\<forall>t. (\<forall>i. k \<le> i \<and> i < s \<longrightarrow> t \<noteq> real i * dt) \<longrightarrow> get_altitude r t = get_altitude g t) \<and>
     velocity r = velocity g \<and> time_step r = time_step g"

text \<open>
  \<open>r\<close> is the profile \<open>f\<close> after a correction with break-even step \<open>m\<close> whose translation
  stopped at step \<open>s\<close>: the integral below \<open>m\<close>, the translated original profile on
  \<open>m \<le> i < s\<close>, where each value is the previous one plus the change of the original
  profile and stays below the fitted altitude, and \<open>f\<close> everywhere else.
\<close>

definition reconciled ::
  "telemetry_flight_profile \<Rightarrow> telemetry_flight_profile \<Rightarrow> telemetry_flight_profile \<Rightarrow>
   real \<Rightarrow> nat \<Rightarrow> nat \<Rightarrow> nat \<Rightarrow> bool" where
  "reconciled orig f r ts n m s \<longleftrightarrow>
     m \<le> s \<and> s \<le> n \<and>
     (\<forall>i<m. get_altitude r (real i * ts) = euler_integral f i) \<and>
     (\<forall>i. m \<le> i \<and> i < s \<longrightarrow>
        get_altitude r (real i * ts) =
          d_add (get_altitude r (real (i - 1) * ts))
            (d_sub (get_altitude orig (real i * ts)) (get_altitude orig (real (i - 1) * ts))) \<and>
        \<not> d_ge (get_altitude r (real i * ts)) (get_altitude f (real i * ts))) \<and>
     (s < n \<longrightarrow>
        d_ge (d_add (get_altitude r (real (s - 1) * ts))
            (d_sub (get_altitude orig (real s * ts)) (get_altitude orig (real (s - 1) * ts))))
          (get_altitude f (real s * ts))) \<and>
     (\<forall>u. (\<forall>i<s. u \<noteq> real i * ts) \<longrightarrow> get_altitude r u = get_altitude f u) \<and>
     velocity r = velocity f"

text \<open>The steps of the scan that lie after the last corrected time.\<close>

definition later_steps :: "real \<Rightarrow> nat \<Rightarrow> real \<Rightarrow> nat set" where
  "later_steps ts n lct = {i. i < n \<and> lct < real i * ts}"

text \<open>
  A three-sample profile with non-negative altitudes and zero velocities, and the profile
  the conditioning loop makes of it.
\<close>

definition ex_profile :: telemetry_flight_profile where
  "ex_profile = \<lparr>time_step = 1, current_time = 0, ballistic_range = None,
     velocity = [(0, Some 0), (1, Some 0), (2, Some 0)],
     altitude = [(0, Some 10), (1, Some 20), (2, Some 5)]\<rparr>"

definition ex_adjusted :: telemetry_flight_profile where
  "ex_adjusted = \<lparr>time_step = 1, current_time = 0, ballistic_range = None,
     velocity = [(0, Some 0), (1, Some 0), (2, Some 0)],
     altitude = [(0, Some 0), (1, Some 10), (2, Some (- 5))]\<rparr>"

section \<open>Altitude conditioning (liftoff-cli/main.cpp, \<open>setup_flight_profile\<close>)\<close>

text \<open>
  The telemetry routines of \<open>liftoff-physics/telem_proc.h\<close> and the polynomial type are
  not among the sources. \<open>setup_flight_profile\<close> is modelled over any implementation of
  them: a record of the routines it calls, with \<open>'p\<close> the type of a fitted polynomial.
  An iterator into a map is the index of its entry.
\<close>

record 'p telem_proc =
  interp_lin :: "series \<Rightarrow> series \<Rightarrow> series"
  find_event_time :: "nat \<Rightarrow> series \<Rightarrow> bool \<Rightarrow> nat"
  collect :: "series \<Rightarrow> real list \<Rightarrow> real list list \<times> double list list"
  force :: "(real \<times> double) list \<Rightarrow> series \<Rightarrow> real list \<Rightarrow> int \<Rightarrow> (real \<times> double) list"
  fit :: "nat \<Rightarrow> real list \<Rightarrow> double list \<Rightarrow> (real \<times> double) list \<Rightarrow> 'p"
  lip :: "(real \<times> double) list \<Rightarrow> 'p"
  val :: "'p \<Rightarrow> real \<Rightarrow> double"

definition km_to_m :: "double \<Rightarrow> double" where
  "km_to_m km = d_mul km (Some 1000)"

text \<open>
  \<open>parse_telem\<close>: the records of the telemetry file are the input, \<open>None\<close> when the file
  cannot be opened (the profile is then left as it is). A record is the triple
  \<open>(time, velocity, altitude)\<close> of one line.
\<close>

fun parse_records ::
  "(real \<times> double \<times> double) list \<Rightarrow> telemetry_flight_profile \<Rightarrow> telemetry_flight_profile" where
  "parse_records [] raw = raw"
| "parse_records ((time, vel, alt) # lines) raw =
     parse_records lines (put_altitude time (km_to_m alt) (put_velocity time vel raw))"

definition parse_telem ::
  "telemetry_flight_profile \<Rightarrow> (real \<times> double \<times> double) list option \<Rightarrow> telemetry_flight_profile" where
  "parse_telem raw file = (case file of None \<Rightarrow> raw | Some lines \<Rightarrow> parse_records lines raw)"

text \<open>
  The first loop of \<open>setup_flight_profile\<close>: the least-squares fit of each leg, with the
  forced points of leg 0 and of leg 2 collected on the times_v of the middle leg.
\<close>

definition fit_leg ::
  "'p telem_proc \<Rightarrow> series \<Rightarrow> real list list \<Rightarrow> double list list \<Rightarrow> nat \<Rightarrow> 'p" where
  "fit_leg lib alt_fitted times_v legs l =
     (let force_points =
            (if l = 0 then force lib [] alt_fitted (times_v ! 1) 1
             else if l = 2 then force lib [] alt_fitted (times_v ! 1) (- 1)
             else [])
      in fit lib (4 + length force_points) (times_v ! l) (legs ! l) force_points)"

text \<open>
  The inner loop of the first rewrite, for the entry with time \<open>t\<close>: the first leg \<open>i\<close>
  with \<open>t < events[i]\<close> decides; the middle leg is left alone, another leg stores the value
  of its polynomial, a negative value replaced by zero.
\<close>

fun rewrite_entry ::
  "'p telem_proc \<Rightarrow> real list \<Rightarrow> 'p list \<Rightarrow> real \<Rightarrow> nat list \<Rightarrow>
   telemetry_flight_profile \<Rightarrow> telemetry_flight_profile" where
  "rewrite_entry lib events alt_fit t [] fitted = fitted"
| "rewrite_entry lib events alt_fit t (i # is) fitted =
     (if t < events ! i then
        (if i = 1 then fitted
         else (let alt = val lib (alt_fit ! i) t;
                   alt = (if d_lt alt (Some 0) then Some 0 else alt)
               in put_altitude t alt fitted))
      else rewrite_entry lib events alt_fit t is fitted)"

text \<open>
  The first rewrite runs over the entries of the altitude map; an iteration stores at
  most the value of its own key, so the entries visited are those the map has at the
  start.
\<close>

definition rewrite_legs ::
  "'p telem_proc \<Rightarrow> real list \<Rightarrow> 'p list \<Rightarrow> telemetry_flight_profile \<Rightarrow>
   telemetry_flight_profile" where
  "rewrite_legs lib events alt_fit fitted =
     fold (\<lambda>(t, alt). rewrite_entry lib events alt_fit t [0..<length events])
       (altitude fitted) fitted"

text \<open>The second rewrite: the middle leg takes the values of one polynomial, as they are.\<close>

definition rewrite_middle ::
  "'p telem_proc \<Rightarrow> 'p \<Rightarrow> real list \<Rightarrow> telemetry_flight_profile \<Rightarrow> telemetry_flight_profile" where
  "rewrite_middle lib lip_fit ts fitted =
     fold (\<lambda>t. put_altitude t (val lib lip_fit t)) ts fitted"

text \<open>
  \<open>setup_flight_profile\<close>. The source dereferences the three event iterators and indexes
  \<open>times\<close> and \<open>legs\<close> at 0, 1 and 2 without a check; where an iterator is the end of the
  map or a leg is missing the behaviour of the program is undefined, and the model has no
  result (\<open>None\<close>). The result is the pair of the raw and the fitted profile.
\<close>

definition setup_flight_profile ::
  "'p telem_proc \<Rightarrow> telemetry_flight_profile \<Rightarrow> telemetry_flight_profile \<Rightarrow>
   (real \<times> double \<times> double) list option \<Rightarrow>
   (telemetry_flight_profile \<times> telemetry_flight_profile) option" where
  "setup_flight_profile lib raw fitted file =
    (let raw = raw\<lparr>ballistic_range := Some 651000\<rparr>;
         raw = parse_telem raw file;
         fitted = fitted\<lparr>velocity := interp_lin lib (velocity fitted) (velocity raw)\<rparr>;
         v_fitted = velocity fitted;
         meco_ptr = find_event_time lib 1 v_fitted True;
         ses_1_ptr = find_event_time lib meco_ptr v_fitted False;
         seco_1_ptr = find_event_time lib ses_1_ptr v_fitted True
     in if \<not> (meco_ptr < length v_fitted \<and> ses_1_ptr < length v_fitted \<and>
               seco_1_ptr < length v_fitted) then None
        else
          (let events = [fst (v_fitted ! meco_ptr), fst (v_fitted ! ses_1_ptr),
                         fst (v_fitted ! seco_1_ptr)];
               n_events = length events;
               fitted = fitted\<lparr>altitude := interp_lin lib (altitude fitted) (altitude raw)\<rparr>;
               (times_v, legs) = collect lib (altitude fitted) events
           in if length times_v < 3 \<or> length legs < 3 then None
              else
                (let alt_fit = map (fit_leg lib (altitude fitted) times_v legs) [0..<n_events];
                     fitted = rewrite_legs lib events alt_fit fitted;
                     force_points = force lib [] (altitude fitted) (times_v ! 0) (- 3);
                     force_points = force lib force_points (altitude fitted) (times_v ! 2) 3;
                     lip_fit = lip lib force_points
                 in Some (raw, rewrite_middle lib lip_fit (times_v ! 1) fitted))))"

section \<open>Reference notions for the altitude conditioning\<close>

text \<open>A negative altitude replaced by zero; NaN is not negative and stays.\<close>

definition clamp_negative :: "double \<Rightarrow> double" where
  "clamp_negative alt = (if d_lt alt (Some 0) then Some 0 else alt)"

text \<open>The value the first rewrite stores for the entry with time \<open>t\<close>, if it stores one.\<close>

definition leg_value :: "'p telem_proc \<Rightarrow> real list \<Rightarrow> 'p list \<Rightarrow> real \<Rightarrow> double option" where
  "leg_value lib events alt_fit t =
     (if t < events ! 0 then Some (clamp_negative (val lib (alt_fit ! 0) t))
      else if t < events ! 1 then None
      else if t < events ! 2 then Some (clamp_negative (val lib (alt_fit ! 2) t))
      else None)"

text \<open>
  A stand-in for the telemetry routines, to run the conditioning on a concrete file: the
  events follow each other by one sample, the legs are cut at the events, no point is
  forced, every fit is the line \<open>t - 1\<close> and the polynomial of the middle leg is the
  constant \<open>-7\<close>.
\<close>

definition toy_collect :: "series \<Rightarrow> real list \<Rightarrow> real list list \<times> double list list" where
  "toy_collect m events =
     (let ks = map fst m;
          ts = [filter (\<lambda>t. t < events ! 0) ks,
                filter (\<lambda>t. events ! 0 \<le> t \<and> t < events ! 1) ks,
                filter (\<lambda>t. events ! 1 \<le> t) ks]
      in (ts, map (map (series_get m)) ts))"

definition toy_lib :: "(real \<times> real) telem_proc" where
  "toy_lib = \<lparr>interp_lin = (\<lambda>target source. source),
              find_event_time = (\<lambda>i m expect_max. Suc i),
              collect = toy_collect,
              force = (\<lambda>force_points m ts order. force_points),
              fit = (\<lambda>order ts vs force_points. (- 1, 1)),
              lip = (\<lambda>force_points. (- 7, 0)),
              val = (\<lambda>p t. Some (fst p + snd p * t))\<rparr>"

definition toy_file :: "(real \<times> double \<times> double) list" where
  "toy_file = [(0, Some 0, Some 0), (1, Some 10, Some 1), (2, Some 20, Some 2),
               (3, Some 10, Some 3), (4, Some 30, Some 4)]"

definition empty_profile :: telemetry_flight_profile where
  "empty_profile = \<lparr>time_step = 1, current_time = 0, ballistic_range = None,
                     velocity = [], altitude = []\<rparr>"

section \<open>Engines and the rocket body (liftoff-cli/engine.h, rocket.h)\<close>

definition ACCEL_G :: real where
  "ACCEL_G = 9.80665"

definition TIME_STEP :: real where
  "TIME_STEP = 1"

definition F9_CD :: real where
  "F9_CD = 0.25"

definition F9_A :: real where
  "F9_A = pi * 2.6 * 2.6"

definition MERLIN_MAX_THRUST :: real where
  "MERLIN_MAX_THRUST = 854000"

definition MERLIN_ISP :: real where
  "MERLIN_ISP = 282"

record engine =
  get_max_thrust :: double
  get_isp :: double
  get_throttle :: double

text \<open>
  Modelled from the spec: engine.h is not among the sources. By the specification an
  engine has a throttle in \<open>[0, 1]\<close>, clamped if more is requested; its thrust is
  \<open>throttle * max_thrust\<close> and its propellant flow rate is \<open>thrust / (isp * g\<^sub>0)\<close>.
\<close>

definition set_throttle :: "double \<Rightarrow> engine \<Rightarrow> engine" where
  "set_throttle x e =
     e\<lparr>get_throttle := (if d_lt x (Some 0) then Some 0 else if d_gt x (Some 1) then Some 1 else x)\<rparr>"

definition get_thrust :: "engine \<Rightarrow> double" where
  "get_thrust e = d_mul (get_throttle e) (get_max_thrust e)"

definition get_prop_flow_rate :: "engine \<Rightarrow> double" where
  "get_prop_flow_rate e = d_div (get_thrust e) (d_mul (get_isp e) (Some ACCEL_G))"

text \<open>
  The rocket of rocket.h with the state of the force-driven body it extends: the mass
  without propellant, the propellant mass, the engines, the applied forces and the
  derivatives of motion \<open>d_mot = [position, velocity, acceleration, jerk]\<close> with their
  snapshot of the previous step.
\<close>

record rocket =
  mass :: double
  prop_mass :: double
  engines :: "engine list"
  forces :: "vector list"
  d_mot :: "vector list"
  prev_d_mot :: "vector list"
  fdb_time_step :: real

definition vector_add :: "vector \<Rightarrow> vector \<Rightarrow> vector" where
  "vector_add a b = \<lparr>get_x = d_add (get_x a) (get_x b), get_y = d_add (get_y a) (get_y b),
                     get_z = d_add (get_z a) (get_z b)\<rparr>"

definition vector_scale :: "vector \<Rightarrow> double \<Rightarrow> vector" where
  "vector_scale a c = \<lparr>get_x = d_mul (get_x a) c, get_y = d_mul (get_y a) c,
                       get_z = d_mul (get_z a) c\<rparr>"

definition vector_sub :: "vector \<Rightarrow> vector \<Rightarrow> vector" where
  "vector_sub a b = \<lparr>get_x = d_sub (get_x a) (get_x b), get_y = d_sub (get_y a) (get_y b),
                     get_z = d_sub (get_z a) (get_z b)\<rparr>"

definition magnitude :: "vector \<Rightarrow> double" where
  "magnitude a = d_sqrt (d_add (d_add (d_mul (get_x a) (get_x a)) (d_mul (get_y a) (get_y a)))
                   (d_mul (get_z a) (get_z a)))"

text \<open>
  Modelled from the spec: rocket.cpp and the force-driven body of liftoff-physics are
  not among the sources. By the specification the mass of the rocket is its dry mass
  (with the upper stage until separation) plus the remaining propellant; the separation
  lowers the total mass by exactly the upper-stage mass, so \<open>set_mass\<close> sets the total;
  the propellant mass has a floor at zero. Each tick \<open>pre_compute\<close> takes the snapshot of
  the previous state, the summed forces divided by the current mass give the
  acceleration, velocity and position integrate forward by Euler steps, and
  \<open>post_compute\<close> commits the jerk as the finite difference of the acceleration.
\<close>

definition get_mass :: "rocket \<Rightarrow> double" where
  "get_mass r = d_add (mass r) (prop_mass r)"

definition set_mass :: "double \<Rightarrow> rocket \<Rightarrow> rocket" where
  "set_mass m r = r\<lparr>mass := d_sub m (prop_mass r)\<rparr>"

definition get_prop_mass :: "rocket \<Rightarrow> double" where
  "get_prop_mass r = prop_mass r"

definition drain_propellant :: "double \<Rightarrow> rocket \<Rightarrow> rocket" where
  "drain_propellant drain_mass r =
     (let p = d_sub (prop_mass r) drain_mass
      in r\<lparr>prop_mass := (if d_lt p (Some 0) then Some 0 else p)\<rparr>)"

definition set_velocity :: "vector \<Rightarrow> rocket \<Rightarrow> rocket" where
  "set_velocity v r = r\<lparr>d_mot := (d_mot r)[1 := v]\<rparr>"

definition pre_compute :: "rocket \<Rightarrow> rocket" where
  "pre_compute r = r\<lparr>prev_d_mot := d_mot r\<rparr>"

definition compute_forces :: "rocket \<Rightarrow> rocket" where
  "compute_forces r =
     (let net = fold (\<lambda>f acc. vector_add acc f) (forces r) zero_vector;
          m = get_mass r
      in r\<lparr>d_mot := (d_mot r)[2 := \<lparr>get_x = d_div (get_x net) m, get_y = d_div (get_y net) m,
                                      get_z = d_div (get_z net) m\<rparr>]\<rparr>)"

definition compute_motion :: "rocket \<Rightarrow> rocket" where
  "compute_motion r =
     (let dt = Some (fdb_time_step r);
          v = vector_add (d_mot r ! 1) (vector_scale (d_mot r ! 2) dt);
          p = vector_add (d_mot r ! 0) (vector_scale v dt)
      in r\<lparr>d_mot := (d_mot r)[0 := p, 1 := v]\<rparr>)"

definition post_compute :: "rocket \<Rightarrow> rocket" where
  "post_compute r =
     (let dt = fdb_time_step r;
          da = vector_sub (d_mot r ! 2) (prev_d_mot r ! 2)
      in r\<lparr>d_mot := (d_mot r)[3 := \<lparr>get_x = d_div (get_x da) (Some dt),
                                      get_y = d_div (get_y da) (Some dt),
                                      get_z = d_div (get_z da) (Some dt)\<rparr>]\<rparr>)"

text \<open>
  The velocity profile the replay produced (velocity_flight_profile.h, not among the
  sources): \<open>get_vx\<close> and \<open>get_vy\<close> are lookups that give NaN for a missing time.
\<close>

record velocity_flight_profile =
  vx :: series
  vy :: series

definition get_vx :: "velocity_flight_profile \<Rightarrow> real \<Rightarrow> double" where
  "get_vx profile t = series_get (vx profile) t"

definition get_vy :: "velocity_flight_profile \<Rightarrow> real \<Rightarrow> double" where
  "get_vy profile t = series_get (vy profile) t"

section \<open>The dynamics simulation (liftoff-cli/main.cpp, \<open>run_test_rocket::Calc\<close>)\<close>

text \<open>The lines the simulation prints.\<close>

datatype console_line = No_propellant real | MECO double

text \<open>The masses of \<open>Calc\<close>.\<close>

definition stage_1_dry_mass_kg :: real where "stage_1_dry_mass_kg = 25600"
definition stage_1_fuel_mass_kg :: real where "stage_1_fuel_mass_kg = 395700"
definition stage_2_dry_mass_kg :: real where "stage_2_dry_mass_kg = 3900"
definition stage_2_fuel_mass_kg :: real where "stage_2_fuel_mass_kg = 92670"
definition payload_mass_kg :: real where "payload_mass_kg = 6800"

text \<open>The size of the local vector \<open>engines\<close> of \<open>Calc\<close>.\<close>

definition engines_size :: real where "engines_size = 9"

text \<open>
  The state before the first step: the body constructed with its masses and nine engines,
  the four derivatives of motion at zero, and the forces \<open>w\<close>, \<open>n\<close> and two default
  vectors (\<open>resize(4)\<close>). The throttle an engine is constructed with is not given by the
  sources at hand and is a parameter.
\<close>

definition initial_rocket :: "double \<Rightarrow> rocket" where
  "initial_rocket throttle0 =
     (let body = \<lparr>mass = Some (stage_1_dry_mass_kg + stage_2_dry_mass_kg + payload_mass_kg
                                + stage_2_fuel_mass_kg),
                  prop_mass = Some stage_1_fuel_mass_kg,
                  engines = replicate 9 \<lparr>get_max_thrust = Some MERLIN_MAX_THRUST,
                                          get_isp = Some MERLIN_ISP, get_throttle = throttle0\<rparr>,
                  forces = [],
                  d_mot = replicate 4 zero_vector,
                  prev_d_mot = replicate 4 zero_vector,
                  fdb_time_step = TIME_STEP\<rparr>;
          w = \<lparr>get_x = Some 0, get_y = d_mul (Some (- ACCEL_G)) (get_mass body), get_z = Some 0\<rparr>;
          n = \<lparr>get_x = Some 0, get_y = d_mul (Some ACCEL_G) (get_mass body), get_z = Some 0\<rparr>
      in body\<lparr>forces := [w, n, zero_vector, zero_vector]\<rparr>)"

text \<open>
  The normal force computation: the loop over the forces other than slot 1 and the
  ground contact, then the store into slot 1.
\<close>

fun normal_loop :: "vector list \<Rightarrow> nat list \<Rightarrow> vector \<Rightarrow> vector" where
  "normal_loop fs [] new_n = new_n"
| "normal_loop fs (k # ks) new_n =
     (if k = 1 then normal_loop fs ks new_n
      else if d_lt (get_y (fs ! k)) (Some 0)
        then normal_loop fs ks
               (vector_add new_n \<lparr>get_x = Some 0, get_y = d_neg (get_y (fs ! k)), get_z = Some 0\<rparr>)
        else normal_loop fs ks new_n)"

definition normal_force_step :: "rocket \<Rightarrow> rocket" where
  "normal_force_step body =
     (let new_n = zero_vector;
          (new_n, body) =
            (if d_lt (get_y (d_mot body ! 0)) (Some 0) then
               (normal_loop (forces body) [0..<length (forces body)] new_n,
                if d_lt (get_y (d_mot body ! 1)) (Some 0) then set_velocity zero_vector body
                else body)
             else (new_n, body))
      in body\<lparr>forces := (forces body)[1 := new_n]\<rparr>)"

definition weight_step :: "rocket \<Rightarrow> rocket" where
  "weight_step body =
     (let cur_mass = get_mass body;
          cur_weight = \<lparr>get_x = Some 0, get_y = d_mul (Some (- ACCEL_G)) cur_mass, get_z = Some 0\<rparr>
      in body\<lparr>forces := (forces body)[0 := cur_weight]\<rparr>)"

definition drag_step :: "rocket \<Rightarrow> rocket" where
  "drag_step body =
     (let p = d_mot body ! 0; v = d_mot body ! 1;
          v_mag = magnitude v;
          cur_drag =
            (if \<not> d_eq v_mag (Some 0) then
               (let drag = calc_drag_earth (Some F9_CD) (get_y p) v_mag (Some F9_A)
                in \<lparr>get_x = d_div (d_mul (d_neg (get_x v)) drag) v_mag,
                    get_y = d_div (d_mul (d_neg (get_y v)) drag) v_mag, get_z = Some 0\<rparr>)
             else zero_vector)
      in body\<lparr>forces := (forces body)[2 := cur_drag]\<rparr>)"

text \<open>
  The throttle command: the velocity error \<open>(dvx, dvy)\<close> and its length \<open>accel\<close> exist
  only where the profile has both components.
\<close>

definition velocity_error :: "velocity_flight_profile \<Rightarrow> real \<Rightarrow> rocket \<Rightarrow> (double \<times> double \<times> double) option" where
  "velocity_error profile cur_time_s body =
     (let vx = get_vx profile cur_time_s; vy = get_vy profile cur_time_s; v = d_mot body ! 1
      in if \<not> isnan vx \<and> \<not> isnan vy then
           (let dvx = d_sub vx (get_x v); dvy = d_sub vy (get_y v);
                accel = d_sqrt (d_add (d_mul dvx dvx) (d_mul dvy dvy))
            in Some (dvx, dvy, accel))
         else None)"

definition throttle_step :: "(double \<times> double \<times> double) option \<Rightarrow> rocket \<Rightarrow> rocket" where
  "throttle_step err body =
     (case err of None \<Rightarrow> body
      | Some (dvx, dvy, accel) \<Rightarrow>
          (let f = d_mul (get_mass body) accel;
               f_pe = d_div f (Some engines_size)
           in body\<lparr>engines := map (\<lambda>e. set_throttle (d_div f_pe (get_max_thrust e)) e)
                                  (engines body)\<rparr>))"

definition separation_step :: "real \<Rightarrow> rocket \<times> console_line list \<Rightarrow> rocket \<times> console_line list" where
  "separation_step cur_time_s s =
     (case s of (body, out) \<Rightarrow>
        let (body, out) =
              (if cur_time_s = 155 then
                 (set_mass (d_sub (d_sub (d_sub (get_mass body) (Some stage_2_dry_mass_kg))
                              (Some stage_2_fuel_mass_kg)) (Some payload_mass_kg)) body,
                  out @ [MECO (get_prop_mass body)])
               else (body, out))
        in if cur_time_s > 155
           then (body\<lparr>engines := map (set_throttle (Some 0)) (engines body)\<rparr>, out)
           else (body, out))"

text \<open>The loop that sums the thrust and drains the propellant, engine by engine.\<close>

fun thrust_loop :: "engine list \<Rightarrow> double \<times> rocket \<Rightarrow> double \<times> rocket" where
  "thrust_loop [] (thrust_net, body) = (thrust_net, body)"
| "thrust_loop (e # es) (thrust_net, body) =
     (let thrust_net = d_add thrust_net (get_thrust e);
          rate = get_prop_flow_rate e;
          mass_flow = d_div rate (Some ACCEL_G);
          total_prop_mass = d_mul mass_flow (Some TIME_STEP)
      in thrust_loop es (thrust_net, drain_propellant total_prop_mass body))"

definition thrust_step :: "(double \<times> double \<times> double) option \<Rightarrow> rocket \<Rightarrow> rocket" where
  "thrust_step err body =
     (let (thrust_net, body) = thrust_loop (engines body) (Some 0, body);
          cur_thrust =
            (case err of None \<Rightarrow> \<lparr>get_x = Some 0, get_y = thrust_net, get_z = Some 0\<rparr>
             | Some (dvx, dvy, accel) \<Rightarrow>
                 (let uax = d_div dvx accel; uay = d_div dvy accel
                  in \<lparr>get_x = d_mul uax thrust_net, get_y = d_mul uay thrust_net, get_z = Some 0\<rparr>))
      in body\<lparr>forces := (forces body)[3 := cur_thrust]\<rparr>)"

text \<open>
  One iteration of the simulation loop, on the rocket and the console output. With no
  propellant left the iteration ends at the \<open>continue\<close>.
\<close>

definition sim_step ::
  "velocity_flight_profile \<Rightarrow> nat \<Rightarrow> rocket \<times> console_line list \<Rightarrow> rocket \<times> console_line list" where
  "sim_step profile i s =
     (case s of (body, out) \<Rightarrow>
        let cur_time_s = real i * TIME_STEP;
            body = pre_compute body;
            body = normal_force_step body;
            body = weight_step body;
            body = drag_step body;
            prop_rem = get_prop_mass body
        in if d_le prop_rem (Some 0) then (body, out @ [No_propellant cur_time_s])
           else
             (let err = velocity_error profile cur_time_s body;
                  body = throttle_step err body;
                  (body, out) = separation_step cur_time_s (body, out);
                  body = thrust_step err body;
                  body = compute_forces body;
                  body = compute_motion body;
                  body = post_compute body
              in (body, out)))"

text \<open>The loop over the steps \<open>i = 0, \<dots>, sim_duration_ticks - 1\<close>, with \<open>to_ticks(400) = 400\<close>.\<close>

definition sim_steps ::
  "velocity_flight_profile \<Rightarrow> nat list \<Rightarrow> rocket \<times> console_line list \<Rightarrow> rocket \<times> console_line list" where
  "sim_steps profile is s = fold (sim_step profile) is s"

definition run_test_rocket ::
  "velocity_flight_profile \<Rightarrow> double \<Rightarrow> rocket \<times> console_line list" where
  "run_test_rocket profile throttle0 = sim_steps profile [0..<400] (initial_rocket throttle0, [])"

section \<open>Reference notions for the dynamics simulation\<close>

text \<open>The downward part of a force: the magnitude of a negative vertical component.\<close>

definition downward :: "vector \<Rightarrow> real" where
  "downward f = (case get_y f of None \<Rightarrow> 0 | Some y \<Rightarrow> if y < 0 then - y else 0)"

text \<open>
  Example states: the rocket on the pad as \<open>Calc\<close> sets it up (engines constructed with
  throttle zero), the rocket one metre below the ground and falling, the rocket at
  1000 m with no propellant left, and a velocity profile without samples.
\<close>

definition hover :: rocket where
  "hover = (initial_rocket (Some 0))
     \<lparr>prop_mass := Some 0,
      d_mot := [\<lparr>get_x = Some 0, get_y = Some 1000, get_z = Some 0\<rparr>, zero_vector, zero_vector,
                zero_vector]\<rparr>"

definition no_profile :: velocity_flight_profile where
  "no_profile = \<lparr>vx = [], vy = []\<rparr>"

definition pad :: rocket where
  "pad = initial_rocket (Some 0)"

definition sunk :: rocket where
  "sunk = pad\<lparr>d_mot := [\<lparr>get_x = Some 0, get_y = Some (- 1), get_z = Some 0\<rparr>,
                          \<lparr>get_x = Some 0, get_y = Some (- 2), get_z = Some 0\<rparr>,
                          zero_vector, zero_vector]\<rparr>"

text \<open>
  A propellant mass that is not negative, and a mass that is not above another one. NaN,
  which is neither negative nor above a number, passes both; once the propellant mass is
  NaN it stays NaN.
\<close>

definition never_negative :: "double \<Rightarrow> bool" where
  "never_negative p = (case p of None \<Rightarrow> True | Some a \<Rightarrow> 0 \<le> a)"

definition not_above :: "double \<Rightarrow> double \<Rightarrow> bool" where
  "not_above p' p =
     (case p' of None \<Rightarrow> True | Some b \<Rightarrow> (case p of None \<Rightarrow> False | Some a \<Rightarrow> b \<le> a))"

text \<open>
  The invariant of the run: every engine has a thrust \<open>\<ge> 0\<close>, a specific impulse
  \<open>> 0\<close> and a throttle in \<open>[0, 1]\<close> (or NaN), and the propellant mass is not negative.
\<close>

definition wf_engine :: "engine \<Rightarrow> bool" where
  "wf_engine e \<longleftrightarrow>
     (case get_max_thrust e of None \<Rightarrow> False | Some T \<Rightarrow> 0 \<le> T) \<and>
     (case get_isp e of None \<Rightarrow> False | Some I \<Rightarrow> 0 < I) \<and>
     (case get_throttle e of None \<Rightarrow> True | Some x \<Rightarrow> 0 \<le> x \<and> x \<le> 1)"

definition rocket_inv :: "rocket \<Rightarrow> bool" where
  "rocket_inv r \<longleftrightarrow> list_all wf_engine (engines r) \<and> never_negative (prop_mass r)"

text \<open>The mass that the separation takes off.\<close>

definition upper_stage_mass :: real where
  "upper_stage_mass = stage_2_dry_mass_kg + stage_2_fuel_mass_kg + payload_mass_kg"


section \<open>Properties of the double model\<close>

lemmas d_arith_defs = d_add_def d_sub_def d_mul_def d_div_def d_neg_def d_abs_def
  d_sqrt_def d_exp_def d_pow_def

lemmas d_cmp_defs = d_lt_def d_le_def d_gt_def d_ge_def d_eq_def isnan_def

lemma d_pos_not_sentinel: "d_pos a \<Longrightarrow> a \<noteq> Some (- 1) \<and> a \<noteq> None"
  by (auto simp: d_pos_def split: option.splits)

section \<open>Properties of the atmosphere and drag model\<close>

lemma calc_pressure_earth_pos: "d_pos (calc_pressure_earth (Some x))"
proof -
  consider "25000 \<le> x" | "11000 \<le> x" "x < 25000" | "x < 11000" by linarith
  then show ?thesis
  proof cases
    case 1
    then show ?thesis
      by (simp add: calc_pressure_earth_def d_pos_def d_cmp_defs d_arith_defs Let_def)
  next
    case 2
    then show ?thesis
      by (simp add: calc_pressure_earth_def d_pos_def d_cmp_defs d_arith_defs Let_def)
  next
    case 3
    then show ?thesis
      by (simp add: calc_pressure_earth_def d_pos_def d_cmp_defs d_arith_defs Let_def)
  qed
qed

lemma calc_rho_earth_pos: "d_pos (calc_rho_earth (Some x))"
proof -
  consider "25000 \<le> x" | "11000 \<le> x" "x < 25000" | "x < 11000" by linarith
  then show ?thesis
  proof cases
    case 1
    then show ?thesis
      by (simp add: calc_rho_earth_def calc_rho_ideal_state_def d_pos_def d_cmp_defs
          d_arith_defs Let_def)
  next
    case 2
    then show ?thesis
      by (simp add: calc_rho_earth_def calc_rho_ideal_state_def d_pos_def d_cmp_defs
          d_arith_defs Let_def)
  next
    case 3
    then show ?thesis
      by (simp add: calc_rho_earth_def calc_rho_ideal_state_def d_pos_def d_cmp_defs
          d_arith_defs Let_def)
  qed
qed

lemma calc_pressure_earth_NaN: "calc_pressure_earth None = Some (- 1)"
  by (simp add: calc_pressure_earth_def d_cmp_defs)

lemma calc_rho_earth_NaN: "calc_rho_earth None = Some (- 1)"
  by (simp add: calc_rho_earth_def d_cmp_defs)

lemma calc_pressure_earth_troposphere:
  "x < 11000 \<Longrightarrow> calc_pressure_earth (Some x) =
     Some (101.29 * ((15.04 - 0.00649 * x + 273.1) / 288.08) powr 5.256)"
  by (simp add: calc_pressure_earth_def d_cmp_defs d_arith_defs Let_def)

lemma calc_rho_earth_troposphere:
  "x < 11000 \<Longrightarrow> calc_rho_earth (Some x) =
     Some (101.29 * ((15.04 - 0.00649 * x + 273.1) / 288.08) powr 5.256
           / (0.2869 * (15.04 - 0.00649 * x + 273.1)))"
  by (simp add: calc_rho_earth_def calc_rho_ideal_state_def d_cmp_defs d_arith_defs Let_def)

text \<open>
  Claim C9, as stated, at an altitude below the lowest band: one kilometre below the zero
  level neither function returns the sentinel \<open>-1\<close>; both evaluate the troposphere
  formula.
\<close>

theorem sentinel_below_troposphere_counterexample:
  "calc_pressure_earth (Some (- 1000)) \<noteq> Some (- 1) \<and>
   calc_rho_earth (Some (- 1000)) \<noteq> Some (- 1)"
  using d_pos_not_sentinel [OF calc_pressure_earth_pos, of "- 1000"]
    d_pos_not_sentinel [OF calc_rho_earth_pos, of "- 1000"]
  by blast

text \<open>
  Claim C9, amended: there are inputs for which the atmospheric model is undefined, and
  they are exactly the NaN altitude. \<open>calc_pressure_earth\<close> and \<open>calc_rho_earth\<close>
  return the sentinel \<open>-1\<close> for NaN and for no number; every numeric altitude below
  11000 m, negative ones included, is evaluated by the troposphere formulas.
\<close>

theorem sentinel_iff_NaN:
  "(calc_pressure_earth alt = Some (- 1)) = (alt = None) \<and>
   (calc_rho_earth alt = Some (- 1)) = (alt = None) \<and>
   (x < 11000 \<longrightarrow>
      calc_pressure_earth (Some x) =
        Some (101.29 * ((15.04 - 0.00649 * x + 273.1) / 288.08) powr 5.256) \<and>
      calc_rho_earth (Some x) =
        Some (101.29 * ((15.04 - 0.00649 * x + 273.1) / 288.08) powr 5.256
              / (0.2869 * (15.04 - 0.00649 * x + 273.1))))"
proof (intro conjI impI)
  show "(calc_pressure_earth alt = Some (- 1)) = (alt = None)"
  proof (cases alt)
    case None
    then show ?thesis by (simp add: calc_pressure_earth_NaN)
  next
    case (Some y)
    then show ?thesis
      using d_pos_not_sentinel [OF calc_pressure_earth_pos, of y] by simp
  qed
  show "(calc_rho_earth alt = Some (- 1)) = (alt = None)"
  proof (cases alt)
    case None
    then show ?thesis by (simp add: calc_rho_earth_NaN)
  next
    case (Some y)
    then show ?thesis
      using d_pos_not_sentinel [OF calc_rho_earth_pos, of y] by simp
  qed
qed (simp_all add: calc_pressure_earth_troposphere calc_rho_earth_troposphere)

theorem sentinel_iff_NaN_witness:
  "(calc_pressure_earth None = Some (- 1)) \<and> (calc_rho_earth None = Some (- 1)) \<and>
   (- 1000 :: real) < 11000 \<and>
   calc_pressure_earth (Some (- 1000)) = Some (101.29 * (29463 / 28808) powr 5.256) \<and>
   calc_rho_earth (Some (- 1000)) =
     Some (101.29 * (29463 / 28808) powr 5.256 / (0.2869 * 294.63))"
  using sentinel_iff_NaN [of None "- 1000"] by simp

text \<open>
  Claim C10: on numbers \<open>calc_drag\<close> is \<open>0.5 * cd * rho * v\<^sup>2 * a\<close>, on any operands
  it is that product with NaN propagated, and \<open>calc_drag_earth\<close> is \<open>calc_drag\<close> at the
  density \<open>calc_rho_earth\<close> gives for the altitude.
\<close>

theorem calc_drag_formula:
  "calc_drag (Some cd) (Some rho) (Some v) (Some a) = Some (0.5 * cd * rho * v\<^sup>2 * a) \<and>
   calc_drag c r w s = d_mul (d_mul (d_mul (d_mul (Some 0.5) c) r) (d_mul w w)) s \<and>
   calc_drag_earth c alt w s = calc_drag c (calc_rho_earth alt) w s"
  by (simp add: calc_drag_def calc_drag_earth_def d_arith_defs power2_eq_square
      split: option.splits)

section \<open>Properties of the velocity command\<close>

lemma sq_le:
  fixes e m :: real
  assumes "\<bar>e\<bar> \<le> m"
  shows "e * e \<le> m * m"
proof -
  from assms have "\<bar>e\<bar> \<le> \<bar>m\<bar>" by linarith
  then have "e\<^sup>2 \<le> m\<^sup>2" by (simp only: abs_le_square_iff)
  then show ?thesis by (simp add: power2_eq_square)
qed

lemma clamp_cases:
  "0 \<le> m \<Longrightarrow> max (- m) (min m e) = (if \<bar>e\<bar> > m then sgn e * m else (e::real))"
  by (auto simp: sgn_if max_def min_def)

lemma signum_sgn: "real_of_int (signum (Some e)) = sgn e"
  by (simp add: signum_def d_gt_def d_lt_def sgn_if)

lemma clamp_step:
  "0 \<le> m \<Longrightarrow>
   (if d_gt (d_abs (Some e)) (Some m) then d_mul (Some (of_int (signum (Some e)))) (Some m)
    else Some e) = Some (max (- m) (min m e))"
  unfolding clamp_cases signum_sgn
  by (simp add: d_gt_def d_lt_def d_abs_def d_mul_def)

lemma x_step:
  "\<bar>w\<bar> \<le> m \<Longrightarrow> d_sqrt (d_sub (d_mul (Some m) (Some m)) (d_mul (Some w) (Some w))) =
     Some (sqrt (m\<^sup>2 - w\<^sup>2))"
  using sq_le [of w m] by (simp add: d_sqrt_def d_sub_def d_mul_def power2_eq_square)

text \<open>
  Claim C3: with a nonzero setpoint, a known last state and a speed \<open>m \<ge> 0\<close>, the
  commanded vertical velocity is \<open>(setpoint - last_state) / time_step\<close> clamped to the
  interval \<open>[-m, m]\<close> (its magnitude is at most \<open>m\<close> and its sign is that of the
  unclamped value), and the horizontal velocity is \<open>sqrt (m\<^sup>2 - v_y\<^sup>2)\<close>. With a zero
  setpoint the command is \<open>(0, mag_v)\<close> whatever the last state, the current velocity and
  the speed are.
\<close>

theorem adjust_velocity_command:
  assumes "get_setpoint pidf = Some sp" and "sp \<noteq> 0"
    and "get_last_state pidf = Some ls" and "get_time_step pidf \<noteq> 0" and "0 \<le> m"
  shows "adjust_velocity pidf cur_v (Some m) =
           \<lparr>get_x = Some (sqrt (m\<^sup>2 - (max (- m) (min m ((sp - ls) / get_time_step pidf)))\<^sup>2)),
            get_y = Some (max (- m) (min m ((sp - ls) / get_time_step pidf))),
            get_z = Some 0\<rparr> \<and>
         \<bar>max (- m) (min m ((sp - ls) / get_time_step pidf))\<bar> \<le> m \<and>
         (sgn (max (- m) (min m ((sp - ls) / get_time_step pidf))) =
            sgn ((sp - ls) / get_time_step pidf) \<or> m = 0) \<and>
         adjust_velocity (pidf\<lparr>get_setpoint := Some 0\<rparr>) cur_v mag_v =
           \<lparr>get_x = Some 0, get_y = mag_v, get_z = Some 0\<rparr>"
proof -
  define e where "e = (sp - ls) / get_time_step pidf"
  define v_y where "v_y = max (- m) (min m e)"
  have b: "\<bar>v_y\<bar> \<le> m" using assms(5) unfolding v_y_def by (auto simp: max_def min_def)
  have s: "sgn v_y = sgn e \<or> m = 0"
    using assms(5) unfolding v_y_def by (auto simp: sgn_if max_def min_def)
  have z: "adjust_velocity (pidf\<lparr>get_setpoint := Some 0\<rparr>) cur_v mag_v =
           \<lparr>get_x = Some 0, get_y = mag_v, get_z = Some 0\<rparr>"
    by (simp add: adjust_velocity_def d_eq_def)
  have nz: "\<not> d_eq (get_setpoint pidf) (Some 0)"
    using assms(1,2) by (simp add: d_eq_def)
  have ty: "d_div (compute_error pidf) (Some (get_time_step pidf)) = Some e"
    using assms(1,3,4) by (simp add: compute_error_def d_sub_def d_div_def e_def)
  have c: "adjust_velocity pidf cur_v (Some m) =
           \<lparr>get_x = Some (sqrt (m\<^sup>2 - v_y\<^sup>2)), get_y = Some v_y, get_z = Some 0\<rparr>"
    unfolding adjust_velocity_def Let_def ty clamp_step [OF assms(5)] v_y_def[symmetric]
      x_step [OF b]
    using nz by simp
  from c b s z show ?thesis unfolding v_y_def e_def by blast
qed

theorem adjust_velocity_command_witness:
  "adjust_velocity \<lparr>get_time_step = 1, get_setpoint = Some 100, get_last_state = Some 40\<rparr>
     zero_vector (Some 50) = \<lparr>get_x = Some 0, get_y = Some 50, get_z = Some 0\<rparr> \<and>
   adjust_velocity \<lparr>get_time_step = 1, get_setpoint = Some 0, get_last_state = Some 40\<rparr>
     zero_vector (Some 50) = \<lparr>get_x = Some 0, get_y = Some 50, get_z = Some 0\<rparr>"
  using adjust_velocity_command
    [of "\<lparr>get_time_step = 1, get_setpoint = Some 100, get_last_state = Some 40\<rparr>"
        100 40 50 zero_vector "Some 50"]
  by simp

section \<open>Properties of the reconciliation\<close>

lemma series_get_put:
  "series_get (series_put k v m) k' = (if k' = k then v else series_get m k')"
  by (induction m) (auto simp: series_get_def)

lemma get_altitude_put:
  "get_altitude (put_altitude t v f) t' = (if t' = t then v else get_altitude f t')"
  by (simp add: get_altitude_def put_altitude_def series_get_put)

lemma put_altitude_keeps [simp]:
  "get_velocity (put_altitude t v f) t' = get_velocity f t'"
  "time_step (put_altitude t v f) = time_step f"
  "velocity (put_altitude t v f) = velocity f"
  by (simp_all add: get_velocity_def put_altitude_def)

lemma integral_prefix_keeps [simp]:
  "time_step (integral_prefix f k) = time_step f"
  "velocity (integral_prefix f k) = velocity f"
  by (induction k) simp_all

lemma integral_prefix_velocity [simp]:
  "get_velocity (integral_prefix f k) t = get_velocity f t"
  by (simp add: get_velocity_def)

lemma grid_inj: "0 < dt \<Longrightarrow> (real i * dt = real j * dt) = (i = j)"
  by simp

lemma grid_less: "0 < dt \<Longrightarrow> (real i * dt < real j * dt) = (i < j)"
  by simp

lemma integral_prefix_altitude:
  assumes "0 < time_step f"
  shows "get_altitude (integral_prefix f k) (real i * time_step f) =
     (if i < k then euler_integral f i else get_altitude f (real i * time_step f))"
proof (induction k)
  case 0
  then show ?case by simp
next
  case (Suc k)
  show ?case
    using Suc.IH assms by (auto simp: get_altitude_put less_Suc_eq)
qed

lemma integral_prefix_other:
  "(\<forall>i<k. t \<noteq> real i * time_step f) \<Longrightarrow>
   get_altitude (integral_prefix f k) t = get_altitude f t"
  by (induction k) (simp_all add: get_altitude_put)

lemma integration_step:
  assumes "0 < time_step f" and "k < m" and "k < n"
  shows "adjust_altitude_loop orig (real m * time_step f) [k..<n] (integration_state f k) =
         adjust_altitude_loop orig (real m * time_step f) [Suc k..<n] (integration_state f (Suc k))"
proof -
  have lt: "real k * time_step f < real m * time_step f" using assms by simp
  have up: "[k..<n] = k # [Suc k..<n]" using assms(3) by (simp add: upt_conv_Cons)
  show ?thesis
  proof (cases k)
    case 0
    with lt up show ?thesis
      by (simp add: integration_state_def Let_def)
  next
    case (Suc j)
    with lt up show ?thesis
      by (simp add: integration_state_def Let_def)
  qed
qed

lemma integration_phase:
  assumes "0 < time_step f" and "m \<le> n"
  shows "k \<le> m \<Longrightarrow>
     adjust_altitude_loop orig (real m * time_step f) [0..<n] (integration_state f 0) =
     adjust_altitude_loop orig (real m * time_step f) [k..<n] (integration_state f k)"
proof (induction k)
  case 0
  then show ?case by simp
next
  case (Suc k)
  then have "k < m" "k < n" using assms(2) by simp_all
  from integration_step [OF assms(1) this] Suc show ?case by simp
qed

lemma translated_stop:
  assumes "k \<le> n"
    and "k < n \<longrightarrow> d_ge (d_add la (d_sub (get_altitude orig (real k * dt)) (get_altitude orig lt)))
           (get_altitude g (real k * dt))"
  shows "translated orig dt g g k la lt n k"
  using assms by (auto simp: translated_def step_target_def)

lemma translated_step:
  assumes dt: "0 < dt"
    and tgt: "target = d_add la (d_sub (get_altitude orig (real k * dt)) (get_altitude orig lt))"
    and nb: "\<not> d_ge target (get_altitude g (real k * dt))"
    and ih: "translated orig dt (put_altitude (real k * dt) target g) r (Suc k) target (real k * dt) n s"
  shows "translated orig dt g r k la lt n s"
proof -
  let ?g' = "put_altitude (real k * dt) target g"
  from ih have ks: "Suc k \<le> s" and sn: "s \<le> n"
    and a: "\<And>i. Suc k \<le> i \<Longrightarrow> i < s \<Longrightarrow>
        get_altitude r (real i * dt) = step_target orig dt r (Suc k) target (real k * dt) i \<and>
        \<not> d_ge (get_altitude r (real i * dt)) (get_altitude ?g' (real i * dt))"
    and b: "s < n \<longrightarrow> d_ge (step_target orig dt r (Suc k) target (real k * dt) s)
              (get_altitude ?g' (real s * dt))"
    and c: "\<And>t. (\<forall>i. Suc k \<le> i \<and> i < s \<longrightarrow> t \<noteq> real i * dt) \<Longrightarrow>
              get_altitude r t = get_altitude ?g' t"
    and d: "velocity r = velocity ?g'" "time_step r = time_step ?g'"
    unfolding translated_def by blast+
  have rk: "get_altitude r (real k * dt) = target"
  proof -
    have "\<forall>i. Suc k \<le> i \<and> i < s \<longrightarrow> real k * dt \<noteq> real i * dt" using dt by simp
    from c [OF this] show ?thesis by (simp add: get_altitude_put)
  qed
  have g': "\<And>i. i \<noteq> k \<Longrightarrow> get_altitude ?g' (real i * dt) = get_altitude g (real i * dt)"
    using dt by (simp add: get_altitude_put)
  have st: "\<And>i. Suc k \<le> i \<Longrightarrow>
      step_target orig dt r (Suc k) target (real k * dt) i = step_target orig dt r k la lt i"
  proof -
    fix i assume i: "Suc k \<le> i"
    show "step_target orig dt r (Suc k) target (real k * dt) i = step_target orig dt r k la lt i"
    proof (cases "i = Suc k")
      case True
      then show ?thesis using rk by (simp add: step_target_def)
    next
      case False
      with i show ?thesis by (simp add: step_target_def)
    qed
  qed
  have A: "\<forall>i. k \<le> i \<and> i < s \<longrightarrow>
        get_altitude r (real i * dt) = step_target orig dt r k la lt i \<and>
        \<not> d_ge (get_altitude r (real i * dt)) (get_altitude g (real i * dt))"
  proof (intro allI impI)
    fix i assume i: "k \<le> i \<and> i < s"
    show "get_altitude r (real i * dt) = step_target orig dt r k la lt i \<and>
        \<not> d_ge (get_altitude r (real i * dt)) (get_altitude g (real i * dt))"
    proof (cases "i = k")
      case True
      then show ?thesis using rk nb tgt by (simp add: step_target_def)
    next
      case False
      with i have i': "Suc k \<le> i" "i < s" by simp_all
      from a [OF i'] have 1: "get_altitude r (real i * dt) =
            step_target orig dt r (Suc k) target (real k * dt) i"
        and 2: "\<not> d_ge (get_altitude r (real i * dt)) (get_altitude ?g' (real i * dt))"
        by blast+
      from 1 have "get_altitude r (real i * dt) = step_target orig dt r k la lt i"
        by (simp only: st [OF i'(1)])
      moreover from 2 have "\<not> d_ge (get_altitude r (real i * dt)) (get_altitude g (real i * dt))"
        by (simp add: g' [OF False])
      ultimately show ?thesis by blast
    qed
  qed
  have B: "s < n \<longrightarrow> d_ge (step_target orig dt r k la lt s) (get_altitude g (real s * dt))"
  proof
    assume "s < n"
    with b have "d_ge (step_target orig dt r (Suc k) target (real k * dt) s)
              (get_altitude ?g' (real s * dt))" by blast
    moreover have "s \<noteq> k" using ks by simp
    ultimately show "d_ge (step_target orig dt r k la lt s) (get_altitude g (real s * dt))"
      using st [OF ks] g' [of s] by simp
  qed
  have C: "\<forall>t. (\<forall>i. k \<le> i \<and> i < s \<longrightarrow> t \<noteq> real i * dt) \<longrightarrow> get_altitude r t = get_altitude g t"
  proof (intro allI impI)
    fix t assume t: "\<forall>i. k \<le> i \<and> i < s \<longrightarrow> t \<noteq> real i * dt"
    then have "\<forall>i. Suc k \<le> i \<and> i < s \<longrightarrow> t \<noteq> real i * dt" by simp
    from c [OF this] have "get_altitude r t = get_altitude ?g' t" .
    moreover from t ks have "t \<noteq> real k * dt" by simp
    ultimately show "get_altitude r t = get_altitude g t" by (simp add: get_altitude_put)
  qed
  have ks': "k \<le> s" using ks by simp
  have d': "velocity r = velocity g" "time_step r = time_step g" using d by simp_all
  show ?thesis unfolding translated_def
    by (intro conjI) (rule ks' sn A B C d')+
qed

lemma translation_phase:
  assumes "0 < time_step g"
  shows "k \<le> n \<Longrightarrow> b \<le> real k * time_step g \<Longrightarrow>
    \<exists>s. translated orig (time_step g) g
          (adjust_altitude_loop orig b [k..<n] (lt, la, vi, g)) k la lt n s"
  using assms
proof (induction "n - k" arbitrary: k lt la vi g)
  case 0
  then have "[k..<n] = []" by simp
  with 0 show ?case using translated_stop [of k n la orig "time_step g" lt g] by auto
next
  case (Suc d)
  let ?dt = "time_step g"
  let ?t = "real k * ?dt"
  let ?target = "d_add la (d_sub (get_altitude orig ?t) (get_altitude orig lt))"
  let ?g' = "put_altitude ?t ?target g"
  from Suc.hyps(2) have kn: "k < n" by simp
  then have up: "[k..<n] = k # [Suc k..<n]" by (simp add: upt_conv_Cons)
  have nlt: "\<not> ?t < b" using Suc.prems(2) by simp
  show ?case
  proof (cases "d_ge ?target (get_altitude g ?t)")
    case True
    then have "adjust_altitude_loop orig b [k..<n] (lt, la, vi, g) = g"
      using up nlt by (simp add: Let_def)
    with True Suc.prems(1) show ?thesis
      using translated_stop [of k n la orig ?dt lt g] by auto
  next
    case False
    have eq: "adjust_altitude_loop orig b [k..<n] (lt, la, vi, g) =
          adjust_altitude_loop orig b [Suc k..<n]
            (?t, ?target, d_add vi (d_mul (get_velocity g ?t) (Some ?dt)), ?g')"
      using up nlt False by (simp add: Let_def)
    have d: "d = n - Suc k" using Suc.hyps(2) by simp
    have b': "b \<le> real (Suc k) * time_step ?g'"
    proof -
      have "real k * ?dt \<le> real (Suc k) * ?dt" using Suc.prems(3) by simp
      with Suc.prems(2) show ?thesis by simp
    qed
    have "0 < time_step ?g'" using Suc.prems(3) by simp
    from Suc.hyps(1) [OF d _ b' this] kn obtain s where
      "translated orig (time_step ?g') ?g'
         (adjust_altitude_loop orig b [Suc k..<n]
            (?t, ?target, d_add vi (d_mul (get_velocity g ?t) (Some ?dt)), ?g'))
         (Suc k) ?target ?t n s"
      by fastforce
    then have "translated orig ?dt ?g'
         (adjust_altitude_loop orig b [k..<n] (lt, la, vi, g)) (Suc k) ?target ?t n s"
      using eq by simp
    from translated_step [OF Suc.prems(3) refl False this] show ?thesis by blast
  qed
qed

lemma adjust_altitude_result:
  assumes dt: "0 < ts" and f: "time_step f = ts" and m: "1 \<le> m" "m \<le> n"
    and n: "n = nat \<lceil>mt / ts\<rceil>"
    and r_def: "r = adjust_altitude orig f (real m * ts) mt"
  shows "\<exists>s. reconciled orig f r ts n m s"
proof -
  have dtf: "0 < time_step f" using dt f by simp
  obtain j where j: "m = Suc j" using m(1) by (cases m) simp_all
  let ?g = "integral_prefix f m"
  have r0: "r = adjust_altitude_loop orig (real m * ts) [0..<n] (integration_state f 0)"
    by (simp add: r_def adjust_altitude_def n f integration_state_def)
  have r1: "r = adjust_altitude_loop orig (real m * ts) [m..<n]
               (real j * ts, euler_integral f j, euler_integral f j, ?g)"
    using integration_phase [OF dtf m(2), of m orig] r0 j f by (simp add: integration_state_def)
  have g: "time_step ?g = ts" using f by simp
  then have "0 < time_step ?g" using dt by simp
  from translation_phase [OF this m(2), of "real m * ts" orig "real j * ts"
      "euler_integral f j" "euler_integral f j"] r1 g
  obtain s where tr: "translated orig ts ?g r m (euler_integral f j) (real j * ts) n s"
    by auto
  from tr have ms: "m \<le> s" and sn: "s \<le> n"
    and a: "\<And>i. m \<le> i \<Longrightarrow> i < s \<Longrightarrow>
        get_altitude r (real i * ts) = step_target orig ts r m (euler_integral f j) (real j * ts) i \<and>
        \<not> d_ge (get_altitude r (real i * ts)) (get_altitude ?g (real i * ts))"
    and b: "s < n \<longrightarrow> d_ge (step_target orig ts r m (euler_integral f j) (real j * ts) s)
              (get_altitude ?g (real s * ts))"
    and c: "\<And>t. (\<forall>i. m \<le> i \<and> i < s \<longrightarrow> t \<noteq> real i * ts) \<Longrightarrow>
              get_altitude r t = get_altitude ?g t"
    and d: "velocity r = velocity ?g"
    unfolding translated_def by blast+
  have ipa: "\<And>i k. get_altitude (integral_prefix f k) (real i * ts) =
     (if i < k then euler_integral f i else get_altitude f (real i * ts))"
    using integral_prefix_altitude [OF dtf] f by simp
  have low: "\<And>i. i < m \<Longrightarrow> get_altitude r (real i * ts) = euler_integral f i"
  proof -
    fix i assume i: "i < m"
    then have "\<forall>i'. m \<le> i' \<and> i' < s \<longrightarrow> real i * ts \<noteq> real i' * ts" using dt by simp
    from c [OF this] i show "get_altitude r (real i * ts) = euler_integral f i"
      by (simp add: ipa)
  qed
  have gi: "\<And>i. m \<le> i \<Longrightarrow> get_altitude ?g (real i * ts) = get_altitude f (real i * ts)"
    by (simp add: ipa)
  have st: "\<And>i. m \<le> i \<Longrightarrow> step_target orig ts r m (euler_integral f j) (real j * ts) i =
          d_add (get_altitude r (real (i - 1) * ts))
            (d_sub (get_altitude orig (real i * ts)) (get_altitude orig (real (i - 1) * ts)))"
  proof -
    fix i assume "m \<le> i"
    show "step_target orig ts r m (euler_integral f j) (real j * ts) i =
          d_add (get_altitude r (real (i - 1) * ts))
            (d_sub (get_altitude orig (real i * ts)) (get_altitude orig (real (i - 1) * ts)))"
    proof (cases "i = m")
      case True
      have "get_altitude r (real j * ts) = euler_integral f j" using low [of j] j by simp
      with True j show ?thesis by (simp add: step_target_def)
    next
      case False
      then show ?thesis by (simp add: step_target_def)
    qed
  qed
  have A: "\<forall>i. m \<le> i \<and> i < s \<longrightarrow>
        get_altitude r (real i * ts) =
          d_add (get_altitude r (real (i - 1) * ts))
            (d_sub (get_altitude orig (real i * ts)) (get_altitude orig (real (i - 1) * ts))) \<and>
        \<not> d_ge (get_altitude r (real i * ts)) (get_altitude f (real i * ts))"
  proof (intro allI impI)
    fix i assume i: "m \<le> i \<and> i < s"
    then have i': "m \<le> i" "i < s" by simp_all
    from a [OF i'] have 1: "get_altitude r (real i * ts) =
        step_target orig ts r m (euler_integral f j) (real j * ts) i"
      and 2: "\<not> d_ge (get_altitude r (real i * ts)) (get_altitude ?g (real i * ts))"
      by blast+
    from 1 have "get_altitude r (real i * ts) =
          d_add (get_altitude r (real (i - 1) * ts))
            (d_sub (get_altitude orig (real i * ts)) (get_altitude orig (real (i - 1) * ts)))"
      by (simp only: st [OF i'(1)])
    moreover from 2 have "\<not> d_ge (get_altitude r (real i * ts)) (get_altitude f (real i * ts))"
      by (simp add: gi [OF i'(1)])
    ultimately show "get_altitude r (real i * ts) =
          d_add (get_altitude r (real (i - 1) * ts))
            (d_sub (get_altitude orig (real i * ts)) (get_altitude orig (real (i - 1) * ts))) \<and>
        \<not> d_ge (get_altitude r (real i * ts)) (get_altitude f (real i * ts))"
      by (rule conjI)
  qed
  have B: "s < n \<longrightarrow>
        d_ge (d_add (get_altitude r (real (s - 1) * ts))
            (d_sub (get_altitude orig (real s * ts)) (get_altitude orig (real (s - 1) * ts))))
          (get_altitude f (real s * ts))"
  proof
    assume "s < n"
    with b have "d_ge (step_target orig ts r m (euler_integral f j) (real j * ts) s)
              (get_altitude ?g (real s * ts))" by blast
    then show "d_ge (d_add (get_altitude r (real (s - 1) * ts))
            (d_sub (get_altitude orig (real s * ts)) (get_altitude orig (real (s - 1) * ts))))
          (get_altitude f (real s * ts))"
      by (simp only: st [OF ms] gi [OF ms])
  qed
  have C: "\<forall>u. (\<forall>i<s. u \<noteq> real i * ts) \<longrightarrow> get_altitude r u = get_altitude f u"
  proof (intro allI impI)
    fix u assume u: "\<forall>i<s. u \<noteq> real i * ts"
    then have "\<forall>i. m \<le> i \<and> i < s \<longrightarrow> u \<noteq> real i * ts" by simp
    from c [OF this] have "get_altitude r u = get_altitude ?g u" .
    moreover have "\<forall>i<m. u \<noteq> real i * time_step f" using u ms f by simp
    ultimately show "get_altitude r u = get_altitude f u"
      by (simp add: integral_prefix_other)
  qed
  have L: "\<forall>i<m. get_altitude r (real i * ts) = euler_integral f i" using low by blast
  have d': "velocity r = velocity f" using d by simp
  have "reconciled orig f r ts n m s"
    unfolding reconciled_def by (intro conjI) (rule ms sn L A B C d')+
  then show ?thesis ..
qed

lemma scan_profile_Some:
  "scan_profile ts f lct js st = Some t \<Longrightarrow> lct < t \<and> (\<exists>i\<in>set js. t = real i * ts)"
proof (induction js arbitrary: st)
  case Nil
  then show ?case by (cases st) simp
next
  case (Cons j js)
  obtain last_t last_alt where st: "st = (last_t, last_alt)" by (cases st)
  show ?case
  proof (cases "d_lt_quot (get_velocity f (real j * ts))
                  (d_sub (get_altitude f (real j * ts)) last_alt) (real j * ts - last_t)
                \<and> lct < real j * ts")
    case True
    with Cons.prems st show ?thesis by (simp add: Let_def)
  next
    case False
    with Cons.prems st have "scan_profile ts f lct js (real j * ts, get_altitude f (real j * ts)) = Some t"
      by (simp add: Let_def)
    from Cons.IH [OF this] show ?thesis by auto
  qed
qed

lemma later_steps_decrease:
  assumes "i < n" and "lct < real i * ts"
  shows "card (later_steps ts n (real i * ts)) < card (later_steps ts n lct)"
proof (rule psubset_card_mono)
  show "finite (later_steps ts n lct)" by (simp add: later_steps_def)
  have "i \<in> later_steps ts n lct" using assms by (simp add: later_steps_def)
  moreover have "i \<notin> later_steps ts n (real i * ts)" by (simp add: later_steps_def)
  moreover have "later_steps ts n (real i * ts) \<subseteq> later_steps ts n lct"
    using assms(2) by (auto simp: later_steps_def)
  ultimately show "later_steps ts n (real i * ts) \<subset> later_steps ts n lct" by blast
qed

lemma later_steps_bound: "card (later_steps ts n lct) \<le> n"
proof -
  have "later_steps ts n lct \<subseteq> {..<n}" by (auto simp: later_steps_def)
  then have "card (later_steps ts n lct) \<le> card {..<n}" by (intro card_mono) simp_all
  then show ?thesis by simp
qed

lemma conditioning_passes_enough:
  "card (later_steps ts (total_steps ts mt) lct) < n \<Longrightarrow>
   \<exists>r. conditioning_passes n ts mt orig lct f = Some r"
proof (induction n arbitrary: lct f)
  case 0
  then show ?case by simp
next
  case (Suc n)
  show ?case
  proof (cases "scan_profile ts f lct [0..<total_steps ts mt] (0, Some 0)")
    case None
    then show ?thesis by simp
  next
    case (Some t)
    from scan_profile_Some [OF Some] obtain i where
      i: "i < total_steps ts mt" "t = real i * ts" "lct < t" by auto
    from later_steps_decrease [of i "total_steps ts mt" lct ts] i Suc.prems
    have "card (later_steps ts (total_steps ts mt) t) < n" by simp
    from Suc.IH [OF this] Some show ?thesis by simp
  qed
qed

lemma conditioning_passes_loop:
  "conditioning_passes n ts mt orig lct f = Some r \<Longrightarrow>
   conditioning_loop ts mt orig lct f = Some r"
proof (induction n arbitrary: lct f)
  case 0
  then show ?case by simp
next
  case (Suc n)
  show ?case
  proof (cases "scan_profile ts f lct [0..<total_steps ts mt] (0, Some 0)")
    case None
    with Suc.prems show ?thesis by (subst conditioning_loop.simps) simp
  next
    case (Some t)
    with Suc.prems have "conditioning_passes n ts mt orig t (adjust_altitude orig f t mt) = Some r"
      by simp
    from Suc.IH [OF this] Some show ?thesis by (subst conditioning_loop.simps) simp
  qed
qed

lemma d_lt_quot_nonzero: "dt \<noteq> 0 \<Longrightarrow> d_lt_quot v e dt = d_lt v (d_div e (Some dt))"
  by (simp add: d_lt_quot_def d_lt_def d_div_def split: option.splits)

lemma grid_step: "1 \<le> k \<Longrightarrow> real k * ts - real (k - 1) * ts = ts"
  by (simp add: of_nat_diff algebra_simps)

lemma scan_profile_from:
  assumes ts: "0 < ts"
  shows "1 \<le> k \<Longrightarrow>
    scan_profile ts f lct [k..<n] (real (k - 1) * ts, get_altitude f (real (k - 1) * ts)) =
    map_option (\<lambda>i. real i * ts)
      (find (\<lambda>i. 1 \<le> i \<and> insufficient_velocity ts f i \<and> lct < real i * ts) [k..<n])"
proof (induction "n - k" arbitrary: k)
  case 0
  then show ?case by simp
next
  case (Suc d)
  then have kn: "k < n" and d: "d = n - Suc k" by simp_all
  have up: "[k..<n] = k # [Suc k..<n]" using kn by (simp add: upt_conv_Cons)
  have q: "d_lt_quot (get_velocity f (real k * ts))
             (d_sub (get_altitude f (real k * ts)) (get_altitude f (real (k - 1) * ts)))
             (real k * ts - real (k - 1) * ts) = insufficient_velocity ts f k"
  proof -
    have "real k * ts - real (k - 1) * ts = ts" using Suc.prems by (rule grid_step)
    then show ?thesis
      using ts by (simp only: insufficient_velocity_def) (simp add: d_lt_quot_nonzero)
  qed
  have ih: "scan_profile ts f lct [Suc k..<n] (real k * ts, get_altitude f (real k * ts)) =
    map_option (\<lambda>i. real i * ts)
      (find (\<lambda>i. 1 \<le> i \<and> insufficient_velocity ts f i \<and> lct < real i * ts) [Suc k..<n])"
    using Suc.hyps(1) [OF d] by simp
  show ?case
    unfolding up using q ih Suc.prems by (simp add: Let_def)
qed

lemma scan_profile_first:
  assumes ts: "0 < ts" and lct: "0 \<le> lct"
  shows "scan_profile ts f lct [0..<n] (0, Some 0) =
    map_option (\<lambda>i. real i * ts)
      (find (\<lambda>i. 1 \<le> i \<and> insufficient_velocity ts f i \<and> lct < real i * ts) [0..<n])"
proof (cases n)
  case 0
  then show ?thesis by simp
next
  case (Suc n')
  then have up: "[0..<n] = 0 # [Suc 0..<n]" by (simp add: upt_conv_Cons)
  from scan_profile_from [OF ts, of "Suc 0" f lct n] lct
  show ?thesis unfolding up by (simp add: Let_def)
qed

lemma conditioning_passes_final:
  "conditioning_passes n ts mt orig lct f = Some (lct', r) \<Longrightarrow>
   scan_profile ts r lct' [0..<total_steps ts mt] (0, Some 0) = None"
proof (induction n arbitrary: lct f)
  case 0
  then show ?case by simp
next
  case (Suc n)
  show ?case
  proof (cases "scan_profile ts f lct [0..<total_steps ts mt] (0, Some 0)")
    case None
    with Suc.prems show ?thesis by simp
  next
    case (Some t)
    with Suc.prems have "conditioning_passes n ts mt orig t (adjust_altitude orig f t mt) = Some (lct', r)"
      by simp
    from Suc.IH [OF this] show ?thesis .
  qed
qed

lemma conditioning_loop_final:
  assumes "conditioning_loop ts mt orig lct f = Some (lct', r)"
  shows "scan_profile ts r lct' [0..<total_steps ts mt] (0, Some 0) = None"
proof -
  obtain x where x: "conditioning_passes (Suc (card (later_steps ts (total_steps ts mt) lct)))
      ts mt orig lct f = Some x"
    using conditioning_passes_enough [of ts mt lct
        "Suc (card (later_steps ts (total_steps ts mt) lct))" orig f] by auto
  from conditioning_passes_loop [OF x] assms have "x = (lct', r)" by simp
  with x conditioning_passes_final show ?thesis by blast
qed

lemma adjust_altitude_loop_untouched:
  "\<forall>i\<in>set js. t \<noteq> real i * time_step g \<Longrightarrow>
   get_altitude (adjust_altitude_loop orig b js (lt, la, vi, g)) t = get_altitude g t"
proof (induction js arbitrary: lt la vi g)
  case Nil
  then show ?case by simp
next
  case (Cons j js)
  then show ?case by (simp add: Let_def get_altitude_put)
qed

lemma upt_0_2: "2 \<le> n \<Longrightarrow> [0..<n] = 0 # Suc 0 # [Suc (Suc 0)..<n]"
  by (simp add: upt_conv_Cons)

lemma upt_0_3: "3 \<le> n \<Longrightarrow> [0..<n] = 0 # Suc 0 # Suc (Suc 0) # [Suc (Suc (Suc 0))..<n]"
  by (simp add: upt_conv_Cons)

lemma ex_scan_n: "2 \<le> n \<Longrightarrow> scan_profile 1 ex_profile 0 [0..<n] (0, Some 0) = Some 1"
  by (simp add: upt_0_2 ex_profile_def get_altitude_def get_velocity_def series_get_def
      d_lt_quot_def d_sub_def Let_def)

lemma ex_adjust_3:
  "3 \<le> n \<Longrightarrow> adjust_altitude_loop ex_profile 1 [0..<n] (0, Some 0, Some 0, ex_profile) =
     adjust_altitude_loop ex_profile 1 [Suc (Suc (Suc 0))..<n] (2, Some (- 5), Some 0, ex_adjusted)"
  by (simp add: upt_0_3 ex_profile_def ex_adjusted_def get_altitude_def get_velocity_def
      put_altitude_def series_get_def d_ge_def d_le_def d_sub_def d_add_def d_mul_def Let_def)

lemma ex_adjust_n:
  assumes "3 \<le> n"
  shows "get_altitude
     (adjust_altitude_loop ex_profile 1 [0..<n] (0, Some 0, Some 0, ex_profile)) 2 = Some (- 5)"
proof -
  have "\<forall>i\<in>set [Suc (Suc (Suc 0))..<n]. (2::real) \<noteq> real i * time_step ex_adjusted"
    by (auto simp: ex_adjusted_def)
  from adjust_altitude_loop_untouched [OF this]
  show ?thesis unfolding ex_adjust_3 [OF assms]
    by (simp add: ex_adjusted_def get_altitude_def series_get_def)
qed

lemma total_steps_1_3: "total_steps 1 3 = 3"
  by (simp add: total_steps_def)

lemma total_steps_1_500: "total_steps 1 500 = 500"
  by (simp add: total_steps_def)

lemma ex_scan: "scan_profile 1 ex_profile 0 [0..<total_steps 1 3] (0, Some 0) = Some 1"
  by (simp only: total_steps_1_3) (rule ex_scan_n, simp)

lemma ex_adjust: "adjust_altitude ex_profile ex_profile 1 3 = ex_adjusted"
proof -
  have "nat \<lceil>3 / time_step ex_profile\<rceil> = 3" by (simp add: ex_profile_def)
  then show ?thesis
    unfolding adjust_altitude_def using ex_adjust_3 [of 3] by simp
qed

lemma ex_scan_adjusted: "scan_profile 1 ex_adjusted 1 [0..<total_steps 1 3] (0, Some 0) = None"
  by (simp add: total_steps_1_3 upt_0_3 ex_adjusted_def get_altitude_def get_velocity_def
      series_get_def d_lt_quot_def d_sub_def Let_def)

lemma ex_run: "conditioning_loop 1 3 ex_profile 0 ex_profile = Some (1, ex_adjusted)"
proof (rule conditioning_passes_loop [of "Suc (Suc 0)"])
  show "conditioning_passes (Suc (Suc 0)) 1 3 ex_profile 0 ex_profile = Some (1, ex_adjusted)"
    by (simp add: ex_scan ex_adjust ex_scan_adjusted)
qed

text \<open>
  Claim C2: the \<open>while (true)\<close> loop of the final conditioning step returns for every
  profile and every time step and horizon, and it does so within \<open>total_steps\<close>
  corrective passes followed by one pass without a correction. A pass that triggers a
  correction does so at a time of the grid \<open>i * time_step\<close>, \<open>i < total_steps\<close>, strictly
  later than the last corrected time.
\<close>

theorem conditioning_loop_terminates:
  "(\<exists>r. conditioning_loop ts mt orig 0 f = Some r \<and>
        conditioning_passes (Suc (total_steps ts mt)) ts mt orig 0 f = Some r) \<and>
   (\<exists>r. final_conditioning f = Some r \<and> conditioning_passes 501 1 500 f 0 f = Some r) \<and>
   (scan_profile ts g lct [0..<total_steps ts mt] (0, Some 0) = Some t \<longrightarrow>
      lct < t \<and> (\<exists>i<total_steps ts mt. t = real i * ts))"
proof -
  have general: "\<exists>r. conditioning_loop ts mt orig 0 f = Some r \<and>
        conditioning_passes (Suc (total_steps ts mt)) ts mt orig 0 f = Some r"
    for ts mt orig and f :: telemetry_flight_profile
  proof -
    have "card (later_steps ts (total_steps ts mt) 0) < Suc (total_steps ts mt)"
      using later_steps_bound [of ts "total_steps ts mt" 0] by simp
    from conditioning_passes_enough [OF this] obtain r where
      r: "conditioning_passes (Suc (total_steps ts mt)) ts mt orig 0 f = Some r" by blast
    from conditioning_passes_loop [OF r] r show ?thesis by blast
  qed
  have calc: "\<exists>r. final_conditioning f = Some r \<and> conditioning_passes 501 1 500 f 0 f = Some r"
    using general [of 1 500 f f] by (simp add: final_conditioning_def total_steps_def)
  have "scan_profile ts g lct [0..<total_steps ts mt] (0, Some 0) = Some t \<longrightarrow>
      lct < t \<and> (\<exists>i<total_steps ts mt. t = real i * ts)"
  proof
    assume "scan_profile ts g lct [0..<total_steps ts mt] (0, Some 0) = Some t"
    from scan_profile_Some [OF this] obtain i where
      "lct < t" "i \<in> set [0..<total_steps ts mt]" "t = real i * ts" by blast
    then have "lct < t" "i < total_steps ts mt \<and> t = real i * ts" by simp_all
    then show "lct < t \<and> (\<exists>i<total_steps ts mt. t = real i * ts)" by blast
  qed
  with general [of ts mt orig f] calc show ?thesis by blast
qed

theorem conditioning_loop_terminates_witness:
  "conditioning_loop 1 3 ex_profile 0 ex_profile = Some (1, ex_adjusted) \<and>
   conditioning_passes 4 1 3 ex_profile 0 ex_profile = Some (1, ex_adjusted) \<and>
   scan_profile 1 ex_profile 0 [0..<total_steps 1 3] (0, Some 0) = Some 1 \<and>
   (0::real) < 1 \<and> (\<exists>i<total_steps 1 3. (1::real) = real i * 1)"
proof -
  have e: "scan_profile 1 ex_profile 0 [0..<total_steps 1 3] (0, Some 0) = Some 1"
    by (rule ex_scan)
  from conditioning_loop_terminates [of 1 3 ex_profile ex_profile ex_profile 0 1] e
  have A: "\<exists>r. conditioning_loop 1 3 ex_profile 0 ex_profile = Some r \<and>
        conditioning_passes (Suc (total_steps 1 3)) 1 3 ex_profile 0 ex_profile = Some r"
    and B: "(0::real) < 1 \<and> (\<exists>i<total_steps 1 3. (1::real) = real i * 1)"
    by blast+
  from A ex_run have "conditioning_passes (Suc (total_steps 1 3)) 1 3 ex_profile 0 ex_profile =
      Some (1, ex_adjusted)" by auto
  then have C: "conditioning_passes 4 1 3 ex_profile 0 ex_profile = Some (1, ex_adjusted)"
    by (simp add: total_steps_1_3)
  from ex_run C e B show ?thesis by blast
qed

text \<open>
  Claim C1: for a positive time step and a last corrected time \<open>lct \<ge> 0\<close> (it starts at
  zero and only grows), the scan triggers a correction at the first step \<open>i \<ge> 1\<close> whose
  fitted velocity is below \<open>(altitude(t\<^sub>i) - altitude(t\<^sub>i\<^sub>-\<^sub>1)) / dt\<close> and whose time is
  strictly later than \<open>lct\<close>. The correction at \<open>t = m * dt\<close> stores the Euler integral of
  the fitted velocity at the steps below \<open>m\<close>; from \<open>m\<close> on it stores the last written
  value plus the change of the original profile since the last step, as long as that
  value is not \<open>\<ge>\<close> the still-fitted altitude, and stops at the first step \<open>s\<close> where it
  is; every other altitude and the velocities stay as they were. The loop then scans the
  corrected profile again with \<open>lct = t\<close>, and it returns the profile of the first pass
  that triggers no correction.
\<close>

theorem reconciliation_pass:
  assumes ts: "0 < ts" and f: "time_step f = ts" and lct: "0 \<le> lct"
  shows
   "scan_profile ts f lct [0..<total_steps ts mt] (0, Some 0) =
      map_option (\<lambda>i. real i * ts)
        (find (\<lambda>i. 1 \<le> i \<and> insufficient_velocity ts f i \<and> lct < real i * ts)
           [0..<total_steps ts mt]) \<and>
    (scan_profile ts f lct [0..<total_steps ts mt] (0, Some 0) = None \<longrightarrow>
       conditioning_loop ts mt orig lct f = Some (lct, f)) \<and>
    (conditioning_loop ts mt orig lct f = Some (lct', r') \<longrightarrow>
       scan_profile ts r' lct' [0..<total_steps ts mt] (0, Some 0) = None) \<and>
    (scan_profile ts f lct [0..<total_steps ts mt] (0, Some 0) = Some t \<longrightarrow>
       conditioning_loop ts mt orig lct f =
         conditioning_loop ts mt orig t (adjust_altitude orig f t mt) \<and>
       (\<exists>m s. t = real m * ts \<and> 1 \<le> m \<and> m \<le> s \<and> s \<le> nat \<lceil>mt / ts\<rceil> \<and>
          (\<forall>i<m. get_altitude (adjust_altitude orig f t mt) (real i * ts) = euler_integral f i) \<and>
          (\<forall>i. m \<le> i \<and> i < s \<longrightarrow>
             get_altitude (adjust_altitude orig f t mt) (real i * ts) =
               d_add (get_altitude (adjust_altitude orig f t mt) (real (i - 1) * ts))
                 (d_sub (get_altitude orig (real i * ts)) (get_altitude orig (real (i - 1) * ts))) \<and>
             \<not> d_ge (get_altitude (adjust_altitude orig f t mt) (real i * ts))
                 (get_altitude f (real i * ts))) \<and>
          (s < nat \<lceil>mt / ts\<rceil> \<longrightarrow>
             d_ge (d_add (get_altitude (adjust_altitude orig f t mt) (real (s - 1) * ts))
                 (d_sub (get_altitude orig (real s * ts)) (get_altitude orig (real (s - 1) * ts))))
               (get_altitude f (real s * ts))) \<and>
          (\<forall>u. (\<forall>i<s. u \<noteq> real i * ts) \<longrightarrow>
             get_altitude (adjust_altitude orig f t mt) u = get_altitude f u) \<and>
          velocity (adjust_altitude orig f t mt) = velocity f))"
proof (intro conjI impI)
  show "scan_profile ts f lct [0..<total_steps ts mt] (0, Some 0) =
      map_option (\<lambda>i. real i * ts)
        (find (\<lambda>i. 1 \<le> i \<and> insufficient_velocity ts f i \<and> lct < real i * ts)
           [0..<total_steps ts mt])"
    by (rule scan_profile_first [OF ts lct])
next
  assume "scan_profile ts f lct [0..<total_steps ts mt] (0, Some 0) = None"
  then show "conditioning_loop ts mt orig lct f = Some (lct, f)"
    by (subst conditioning_loop.simps) simp
next
  assume "conditioning_loop ts mt orig lct f = Some (lct', r')"
  then show "scan_profile ts r' lct' [0..<total_steps ts mt] (0, Some 0) = None"
    by (rule conditioning_loop_final)
next
  assume "scan_profile ts f lct [0..<total_steps ts mt] (0, Some 0) = Some t"
  then show "conditioning_loop ts mt orig lct f =
         conditioning_loop ts mt orig t (adjust_altitude orig f t mt)"
    by (subst conditioning_loop.simps) simp
next
  assume sc: "scan_profile ts f lct [0..<total_steps ts mt] (0, Some 0) = Some t"
  from scan_profile_Some [OF sc] obtain m where
    m: "lct < t" "m < total_steps ts mt" "t = real m * ts" by auto
  have m1: "1 \<le> m"
  proof (rule ccontr)
    assume "\<not> 1 \<le> m"
    then have "m = 0" by simp
    with m(1,3) lct show False by simp
  qed
  have "nat \<lfloor>mt / ts\<rfloor> \<le> nat \<lceil>mt / ts\<rceil>"
    by (rule nat_mono) (rule floor_le_ceiling)
  then have mn: "m \<le> nat \<lceil>mt / ts\<rceil>"
    using m(2) by (simp add: total_steps_def)
  have r: "adjust_altitude orig f t mt = adjust_altitude orig f (real m * ts) mt"
    using m(3) by simp
  from adjust_altitude_result [OF ts f m1 mn refl r] obtain s where
    "reconciled orig f (adjust_altitude orig f t mt) ts (nat \<lceil>mt / ts\<rceil>) m s" ..
  with m(3) m1 have "t = real m * ts \<and> 1 \<le> m \<and>
      reconciled orig f (adjust_altitude orig f t mt) ts (nat \<lceil>mt / ts\<rceil>) m s"
    by blast
  then show "\<exists>m s. t = real m * ts \<and> 1 \<le> m \<and> m \<le> s \<and> s \<le> nat \<lceil>mt / ts\<rceil> \<and>
          (\<forall>i<m. get_altitude (adjust_altitude orig f t mt) (real i * ts) = euler_integral f i) \<and>
          (\<forall>i. m \<le> i \<and> i < s \<longrightarrow>
             get_altitude (adjust_altitude orig f t mt) (real i * ts) =
               d_add (get_altitude (adjust_altitude orig f t mt) (real (i - 1) * ts))
                 (d_sub (get_altitude orig (real i * ts)) (get_altitude orig (real (i - 1) * ts))) \<and>
             \<not> d_ge (get_altitude (adjust_altitude orig f t mt) (real i * ts))
                 (get_altitude f (real i * ts))) \<and>
          (s < nat \<lceil>mt / ts\<rceil> \<longrightarrow>
             d_ge (d_add (get_altitude (adjust_altitude orig f t mt) (real (s - 1) * ts))
                 (d_sub (get_altitude orig (real s * ts)) (get_altitude orig (real (s - 1) * ts))))
               (get_altitude f (real s * ts))) \<and>
          (\<forall>u. (\<forall>i<s. u \<noteq> real i * ts) \<longrightarrow>
             get_altitude (adjust_altitude orig f t mt) u = get_altitude f u) \<and>
          velocity (adjust_altitude orig f t mt) = velocity f"
    unfolding reconciled_def by (intro exI)
qed

theorem reconciliation_pass_witness:
  "(0::real) < 1 \<and> time_step ex_profile = 1 \<and> (0::real) \<le> 0 \<and>
   scan_profile 1 ex_profile 0 [0..<total_steps 1 3] (0, Some 0) = Some 1 \<and>
   conditioning_loop 1 3 ex_profile 0 ex_profile =
     conditioning_loop 1 3 ex_profile 1 (adjust_altitude ex_profile ex_profile 1 3) \<and>
   conditioning_loop 1 3 ex_profile 0 ex_profile = Some (1, ex_adjusted) \<and>
   scan_profile 1 ex_adjusted 1 [0..<total_steps 1 3] (0, Some 0) = None"
proof -
  have h1: "(0::real) < 1" by simp
  have h2: "time_step ex_profile = 1" by (simp add: ex_profile_def)
  have h3: "(0::real) \<le> 0" by simp
  from reconciliation_pass [OF h1 h2 h3, of 3 ex_profile 1 ex_adjusted 1] ex_scan ex_run h2
  show ?thesis by simp
qed

section \<open>Properties of the altitude conditioning\<close>

lemma rewrite_entry_value:
  "length events = 3 \<Longrightarrow>
   rewrite_entry lib events alt_fit t [0..<length events] fitted =
     (case leg_value lib events alt_fit t of None \<Rightarrow> fitted | Some v \<Rightarrow> put_altitude t v fitted)"
proof -
  assume "length events = 3"
  then have "[0..<length events] = [0, Suc 0, Suc (Suc 0)]"
    by (simp add: upt_conv_Cons numeral_3_eq_3)
  then show ?thesis
    by (simp add: leg_value_def clamp_negative_def Let_def numeral_2_eq_2)
qed

lemma clamp_negative_never_negative: "\<not> d_lt (clamp_negative a) (Some 0)"
  by (simp add: clamp_negative_def d_lt_def)

lemma clamp_negative_number: "clamp_negative (Some x) = Some (max 0 x)"
  by (simp add: clamp_negative_def d_lt_def max_def)

lemma fold_store_other:
  "t \<notin> fst ` set es \<Longrightarrow>
   get_altitude (fold (\<lambda>(t, alt) f. case w t of None \<Rightarrow> f | Some v \<Rightarrow> put_altitude t v f) es f) t =
     get_altitude f t"
proof (induction es arbitrary: f)
  case Nil
  then show ?case by simp
next
  case (Cons e es)
  obtain u a where e: "e = (u, a)" by (cases e)
  from Cons.prems e have ut: "t \<noteq> u" and t: "t \<notin> fst ` set es" by auto
  show ?case
    using Cons.IH [OF t] ut e by (simp add: get_altitude_put split: option.splits)
qed

lemma fold_store_key:
  "t \<in> fst ` set es \<Longrightarrow>
   get_altitude (fold (\<lambda>(t, alt) f. case w t of None \<Rightarrow> f | Some v \<Rightarrow> put_altitude t v f) es f) t =
     (case w t of None \<Rightarrow> get_altitude f t | Some v \<Rightarrow> v)"
proof (induction es arbitrary: f)
  case Nil
  then show ?case by simp
next
  case (Cons e es)
  obtain u a where e: "e = (u, a)" by (cases e)
  show ?case
  proof (cases "t \<in> fst ` set es")
    case True
    from Cons.IH [OF True] e show ?thesis
      by (auto simp: get_altitude_put split: option.splits)
  next
    case False
    with Cons.prems e have tu: "t = u" by auto
    from fold_store_other [OF False, of w] e tu show ?thesis
      by (simp add: get_altitude_put split: option.splits)
  qed
qed

lemma rewrite_legs_fold:
  assumes "length events = 3"
  shows "rewrite_legs lib events alt_fit fitted =
     fold (\<lambda>(t, alt) f. case leg_value lib events alt_fit t of None \<Rightarrow> f
                          | Some v \<Rightarrow> put_altitude t v f) (altitude fitted) fitted"
proof -
  have "(\<lambda>(t, alt). rewrite_entry lib events alt_fit t [0..<length events]) =
        (\<lambda>(t, alt) f. case leg_value lib events alt_fit t of None \<Rightarrow> f
                          | Some v \<Rightarrow> put_altitude t v f)"
    by (auto simp: fun_eq_iff rewrite_entry_value [OF assms])
  then show ?thesis unfolding rewrite_legs_def
    by (rule arg_cong [where f = "\<lambda>g. fold g (altitude fitted) fitted"])
qed

lemma rewrite_legs_key:
  assumes "length events = 3" and "t \<in> fst ` set (altitude fitted)"
  shows "get_altitude (rewrite_legs lib events alt_fit fitted) t =
     (case leg_value lib events alt_fit t of None \<Rightarrow> get_altitude fitted t | Some v \<Rightarrow> v)"
  unfolding rewrite_legs_fold [OF assms(1)] by (rule fold_store_key [OF assms(2)])

lemma rewrite_middle_key:
  "t \<in> set ts \<Longrightarrow> get_altitude (rewrite_middle lib p ts f) t = val lib p t"
  unfolding rewrite_middle_def
proof (induction ts arbitrary: f rule: rev_induct)
  case Nil
  then show ?case by simp
next
  case (snoc u ts)
  then show ?case by (cases "t = u") (auto simp: get_altitude_put)
qed

lemma rewrite_middle_other:
  "t \<notin> set ts \<Longrightarrow> get_altitude (rewrite_middle lib p ts f) t = get_altitude f t"
  unfolding rewrite_middle_def
  by (induction ts arbitrary: f) (auto simp: get_altitude_put)

lemma setup_flight_profile_Some:
  assumes "setup_flight_profile lib raw fitted file = Some (raw', fitted')"
  shows "\<exists>events alt_fit lip_fit ts f0. length events = 3 \<and>
           fitted' = rewrite_middle lib lip_fit ts (rewrite_legs lib events alt_fit f0)"
proof -
  from assms have "\<exists>e0 e1 e2 alt_fit lip_fit ts f0.
      fitted' = rewrite_middle lib lip_fit ts (rewrite_legs lib [e0, e1, e2] alt_fit f0)"
    unfolding setup_flight_profile_def Let_def case_prod_beta
    by (simp split: if_splits) blast
  then obtain e0 e1 e2 alt_fit lip_fit ts f0 where
    "fitted' = rewrite_middle lib lip_fit ts (rewrite_legs lib [e0, e1, e2] alt_fit f0)"
    by blast
  moreover have "length [e0, e1, e2] = 3" by simp
  ultimately show ?thesis by blast
qed

text \<open>
  Claim C7, amended: every altitude the leg 0 and leg 2 rewrites store is the value of the
  leg's fitted polynomial with a negative value replaced by zero, so it is never
  negative; an entry of the middle leg or at or after the last event is left as it was.
  The middle-leg rewrite stores the value of its polynomial as it is, and the
  reconciliation stores the velocity integral and the translated altitude as they are
  (claim C1): these can be negative. The conditioning is the first rewrite followed by
  the middle-leg rewrite.
\<close>

theorem leg_rewrites_clamped:
  assumes "length events = 3" and "t \<in> fst ` set (altitude f)"
  shows "get_altitude (rewrite_legs lib events alt_fit f) t =
           (if t < events ! 0 then clamp_negative (val lib (alt_fit ! 0) t)
            else if t < events ! 1 then get_altitude f t
            else if t < events ! 2 then clamp_negative (val lib (alt_fit ! 2) t)
            else get_altitude f t) \<and>
         \<not> d_lt (clamp_negative a) (Some 0) \<and>
         clamp_negative (Some x) = Some (max 0 x) \<and>
         (u \<in> set ts \<longrightarrow> get_altitude (rewrite_middle lib p ts g) u = val lib p u) \<and>
         (setup_flight_profile lib raw fitted file = Some (raw', fitted') \<longrightarrow>
            (\<exists>events alt_fit lip_fit ts f0. length events = 3 \<and>
               fitted' = rewrite_middle lib lip_fit ts (rewrite_legs lib events alt_fit f0)))"
proof (intro conjI impI)
  show "get_altitude (rewrite_legs lib events alt_fit f) t =
           (if t < events ! 0 then clamp_negative (val lib (alt_fit ! 0) t)
            else if t < events ! 1 then get_altitude f t
            else if t < events ! 2 then clamp_negative (val lib (alt_fit ! 2) t)
            else get_altitude f t)"
    unfolding rewrite_legs_key [OF assms] by (simp add: leg_value_def)
next
  show "\<not> d_lt (clamp_negative a) (Some 0)" by (rule clamp_negative_never_negative)
next
  show "clamp_negative (Some x) = Some (max 0 x)" by (rule clamp_negative_number)
next
  assume "u \<in> set ts"
  then show "get_altitude (rewrite_middle lib p ts g) u = val lib p u"
    by (rule rewrite_middle_key)
next
  assume "setup_flight_profile lib raw fitted file = Some (raw', fitted')"
  then show "\<exists>events alt_fit lip_fit ts f0. length events = 3 \<and>
               fitted' = rewrite_middle lib lip_fit ts (rewrite_legs lib events alt_fit f0)"
    by (rule setup_flight_profile_Some)
qed

lemma toy_setup:
  "setup_flight_profile toy_lib empty_profile empty_profile (Some toy_file) =
     Some (\<lparr>time_step = 1, current_time = 0, ballistic_range = Some 651000,
             velocity = [(0, Some 0), (1, Some 10), (2, Some 20), (3, Some 10), (4, Some 30)],
             altitude = [(0, Some 0), (1, Some 1000), (2, Some 2000), (3, Some 3000),
                         (4, Some 4000)]\<rparr>,
           \<lparr>time_step = 1, current_time = 0, ballistic_range = None,
             velocity = [(0, Some 0), (1, Some 10), (2, Some 20), (3, Some 10), (4, Some 30)],
             altitude = [(0, Some 0), (1, Some 0), (2, Some (- 7)), (3, Some 2),
                         (4, Some 4000)]\<rparr>)"
  by (simp add: setup_flight_profile_def toy_lib_def toy_file_def empty_profile_def toy_collect_def
      parse_telem_def put_altitude_def put_velocity_def km_to_m_def d_mul_def d_lt_def
      fit_leg_def rewrite_legs_def rewrite_middle_def upt_conv_Cons Let_def numeral_3_eq_3)

lemma toy_rewrite_legs:
  "rewrite_legs toy_lib [2, 3, 4] [(- 1, 1), (- 1, 1), (- 1, 1)]
     (empty_profile\<lparr>altitude := [(0, Some 0), (1, Some 1000), (2, Some 2000), (3, Some 3000),
                                    (4, Some 4000)]\<rparr>) =
   empty_profile\<lparr>altitude := [(0, Some 0), (1, Some 0), (2, Some 2000), (3, Some 2),
                                (4, Some 4000)]\<rparr>"
  by (simp add: toy_lib_def empty_profile_def put_altitude_def d_lt_def
      rewrite_legs_def upt_conv_Cons Let_def numeral_3_eq_3)

theorem leg_rewrites_clamped_witness:
  "length [2, 3, 4 :: real] = 3 \<and>
   get_altitude (rewrite_legs toy_lib [2, 3, 4] [(- 1, 1), (- 1, 1), (- 1, 1)]
     (empty_profile\<lparr>altitude := [(0, Some 0), (1, Some 1000), (2, Some 2000), (3, Some 3000),
                                    (4, Some 4000)]\<rparr>)) 0 = Some 0 \<and>
   clamp_negative (val toy_lib (- 1, 1) 0) = Some 0 \<and>
   get_altitude (rewrite_middle toy_lib (- 7, 0) [2] empty_profile) 2 = Some (- 7) \<and>
   setup_flight_profile toy_lib empty_profile empty_profile (Some toy_file) =
     Some (\<lparr>time_step = 1, current_time = 0, ballistic_range = Some 651000,
             velocity = [(0, Some 0), (1, Some 10), (2, Some 20), (3, Some 10), (4, Some 30)],
             altitude = [(0, Some 0), (1, Some 1000), (2, Some 2000), (3, Some 3000),
                         (4, Some 4000)]\<rparr>,
           \<lparr>time_step = 1, current_time = 0, ballistic_range = None,
             velocity = [(0, Some 0), (1, Some 10), (2, Some 20), (3, Some 10), (4, Some 30)],
             altitude = [(0, Some 0), (1, Some 0), (2, Some (- 7)), (3, Some 2),
                         (4, Some 4000)]\<rparr>)"
proof -
  let ?f = "empty_profile\<lparr>altitude := [(0, Some 0), (1, Some 1000), (2, Some 2000),
                                        (3, Some 3000), (4, Some 4000)]\<rparr>"
  have l: "length [2, 3, 4 :: real] = 3" by simp
  have k: "(0::real) \<in> fst ` set (altitude ?f)" by simp
  have u: "(2::real) \<in> set [2]" by simp
  have v: "val toy_lib (- 1, 1) 0 = Some (- 1)" by (simp add: toy_lib_def)
  from leg_rewrites_clamped [OF l k, of toy_lib "[(- 1, 1), (- 1, 1), (- 1, 1)]"
      "Some (- 1)" "- 1" 2 "[2]" "(- 7, 0)" empty_profile]
  have 1: "get_altitude (rewrite_legs toy_lib [2, 3, 4] [(- 1, 1), (- 1, 1), (- 1, 1)] ?f) 0 =
      Some 0"
    and 2: "clamp_negative (val toy_lib (- 1, 1) 0) = Some 0"
    and 3: "get_altitude (rewrite_middle toy_lib (- 7, 0) [2] empty_profile) 2 = Some (- 7)"
    using u by (simp_all add: v) (simp add: toy_lib_def)
  from l 1 2 3 toy_setup show ?thesis by blast
qed

lemma fit_leg_calls:
  "fit_leg lib alt tv legs 0 =
     fit lib (4 + length (force lib [] alt (tv ! 1) 1)) (tv ! 0) (legs ! 0)
       (force lib [] alt (tv ! 1) 1)"
  "fit_leg lib alt tv legs 1 = fit lib 4 (tv ! 1) (legs ! 1) []"
  "fit_leg lib alt tv legs 2 =
     fit lib (4 + length (force lib [] alt (tv ! 1) (- 1))) (tv ! 2) (legs ! 2)
       (force lib [] alt (tv ! 1) (- 1))"
  by (simp_all add: fit_leg_def Let_def)

lemma rewrite_legs_middle_unused:
  assumes "length events = 3"
  shows "rewrite_legs lib events (alt_fit[1 := q]) f = rewrite_legs lib events alt_fit f"
proof -
  have "\<And>t. leg_value lib events (alt_fit[1 := q]) t = leg_value lib events alt_fit t"
    by (simp add: leg_value_def)
  then show ?thesis by (simp add: rewrite_legs_fold [OF assms])
qed

text \<open>
  The calls of the conditioning, for any implementation of the telemetry routines: legs 0
  and 2 are fitted by \<open>fit\<close> with order 4 plus the number of forced points, the points
  collected on the times of the middle leg with order \<open>1\<close> and \<open>-1\<close>; the fit of the
  middle leg has no forced point and is never written back; the middle leg is rewritten
  last, with the polynomial \<open>lip\<close> builds from the points forced with order \<open>-3\<close> on leg
  0 and \<open>3\<close> on leg 2 of the profile as rewritten.
\<close>

lemma setup_flight_profile_policy:
  assumes "setup_flight_profile lib raw fitted file = Some (raw', fitted')"
  shows "\<exists>events tv legs f0 f1.
     length events = 3 \<and>
     f1 = rewrite_legs lib events
            [fit_leg lib (altitude f0) tv legs 0, fit_leg lib (altitude f0) tv legs 1,
             fit_leg lib (altitude f0) tv legs 2] f0 \<and>
     fitted' = rewrite_middle lib
                 (lip lib (force lib (force lib [] (altitude f1) (tv ! 0) (- 3))
                             (altitude f1) (tv ! 2) 3))
                 (tv ! 1) f1"
proof -
  define rawp where "rawp = parse_telem (raw\<lparr>ballistic_range := Some 651000\<rparr>) file"
  define fv where "fv = fitted\<lparr>velocity := interp_lin lib (velocity fitted) (velocity rawp)\<rparr>"
  define meco where "meco = find_event_time lib 1 (velocity fv) True"
  define ses where "ses = find_event_time lib meco (velocity fv) False"
  define seco where "seco = find_event_time lib ses (velocity fv) True"
  define evs where "evs = [fst (velocity fv ! meco), fst (velocity fv ! ses),
                           fst (velocity fv ! seco)]"
  define f0 where "f0 = fv\<lparr>altitude := interp_lin lib (altitude fv) (altitude rawp)\<rparr>"
  define tv where "tv = fst (collect lib (altitude f0) evs)"
  define legs where "legs = snd (collect lib (altitude f0) evs)"
  define f1 where "f1 = rewrite_legs lib evs
            [fit_leg lib (altitude f0) tv legs 0, fit_leg lib (altitude f0) tv legs 1,
             fit_leg lib (altitude f0) tv legs 2] f0"
  have u: "[0..<length evs] = [0, 1, 2]" by (simp add: evs_def upt_conv_Cons)
  have "setup_flight_profile lib raw fitted file =
      (if \<not> (meco < length (velocity fv) \<and> ses < length (velocity fv) \<and>
               seco < length (velocity fv)) then None
       else if length tv < 3 \<or> length legs < 3 then None
       else Some (rawp, rewrite_middle lib
                 (lip lib (force lib (force lib [] (altitude f1) (tv ! 0) (- 3))
                             (altitude f1) (tv ! 2) 3))
                 (tv ! 1) f1))"
    unfolding setup_flight_profile_def Let_def case_prod_beta
      rawp_def [symmetric] fv_def [symmetric] meco_def [symmetric] ses_def [symmetric]
      seco_def [symmetric] evs_def [symmetric] f0_def [symmetric] tv_def [symmetric]
      legs_def [symmetric] u
    by (simp add: f1_def)
  with assms have "fitted' = rewrite_middle lib
                 (lip lib (force lib (force lib [] (altitude f1) (tv ! 0) (- 3))
                             (altitude f1) (tv ! 2) 3))
                 (tv ! 1) f1"
    by (simp split: if_splits)
  moreover have "length evs = 3" by (simp add: evs_def)
  ultimately show ?thesis using f1_def by blast
qed


text \<open>
  Claim C7, as stated, on a profile with non-negative altitudes and zero velocities: the
  first scan of \<open>Calc\<close> (\<open>time_step = 1\<close>, \<open>max_time = 500\<close>) triggers a correction at
  \<open>t = 1\<close>, and that correction stores the altitude \<open>-5\<close> at \<open>t = 2\<close>. With the horizon cut
  to the three samples the whole loop returns the profile with that negative altitude.
\<close>

theorem conditioning_negative_counterexample:
  "scan_profile 1 ex_profile 0 [0..<total_steps 1 500] (0, Some 0) = Some 1 \<and>
   get_altitude (adjust_altitude ex_profile ex_profile 1 500) 2 = Some (- 5) \<and>
   conditioning_loop 1 3 ex_profile 0 ex_profile = Some (1, ex_adjusted) \<and>
   get_altitude ex_adjusted 2 = Some (- 5)"
proof -
  have 1: "scan_profile 1 ex_profile 0 [0..<total_steps 1 500] (0, Some 0) = Some 1"
    by (simp only: total_steps_1_500) (rule ex_scan_n, simp)
  have "nat \<lceil>500 / time_step ex_profile\<rceil> = 500" by (simp add: ex_profile_def)
  then have 2: "get_altitude (adjust_altitude ex_profile ex_profile 1 500) 2 = Some (- 5)"
    unfolding adjust_altitude_def using ex_adjust_n [of 500] by simp
  have 3: "get_altitude ex_adjusted 2 = Some (- 5)"
    by (simp add: ex_adjusted_def get_altitude_def series_get_def)
  from 1 2 3 ex_run show ?thesis by blast
qed

section \<open>Properties of the dynamics simulation\<close>

lemma upt_4: "[0..<4] = [0, Suc 0, Suc (Suc 0), Suc (Suc (Suc 0))]"
  by (simp add: upt_conv_Cons)

lemma normal_loop_sum:
  "normal_loop fs ks \<lparr>get_x = Some 0, get_y = Some a, get_z = Some 0\<rparr> =
     \<lparr>get_x = Some 0,
      get_y = Some (a + (\<Sum>k\<leftarrow>ks. if k = 1 then 0 else downward (fs ! k))),
      get_z = Some 0\<rparr>"
proof (induction ks arbitrary: a)
  case Nil
  then show ?case by simp
next
  case (Cons k ks)
  show ?case
  proof (cases "get_y (fs ! k)")
    case None
    then show ?thesis using Cons.IH [of a] by (simp add: downward_def d_lt_def)
  next
    case (Some y)
    then show ?thesis using Cons.IH [of a] Cons.IH [of "a + - y"]
      by (simp add: downward_def d_lt_def vector_add_def d_add_def d_neg_def)
  qed
qed

lemma normal_loop_four:
  "normal_loop fs [0..<4] zero_vector =
     \<lparr>get_x = Some 0,
      get_y = Some (downward (fs ! 0) + downward (fs ! 2) + downward (fs ! 3)),
      get_z = Some 0\<rparr>"
  unfolding zero_vector_def normal_loop_sum upt_4
  by (simp add: numeral_2_eq_2 numeral_3_eq_3)

lemma normal_force_slot:
  assumes "length (forces body) = 4"
  shows "forces (normal_force_step body) ! 1 =
     (if d_lt (get_y (d_mot body ! 0)) (Some 0)
      then \<lparr>get_x = Some 0,
            get_y = Some (downward (forces body ! 0) + downward (forces body ! 2)
                          + downward (forces body ! 3)),
            get_z = Some 0\<rparr>
      else zero_vector)"
  using assms
  by (simp add: normal_force_step_def normal_loop_four set_velocity_def Let_def)

lemma normal_force_velocity:
  "d_mot (normal_force_step body) =
     (if d_lt (get_y (d_mot body ! 0)) (Some 0) \<and> d_lt (get_y (d_mot body ! 1)) (Some 0)
      then (d_mot body)[1 := zero_vector] else d_mot body)"
  by (simp add: normal_force_step_def set_velocity_def Let_def)

lemma pre_compute_fields [simp]:
  "prop_mass (pre_compute r) = prop_mass r" "mass (pre_compute r) = mass r"
  "engines (pre_compute r) = engines r" "forces (pre_compute r) = forces r"
  "d_mot (pre_compute r) = d_mot r"
  by (simp_all add: pre_compute_def)

lemma normal_force_step_fields [simp]:
  "prop_mass (normal_force_step r) = prop_mass r" "mass (normal_force_step r) = mass r"
  "engines (normal_force_step r) = engines r"
  "length (forces (normal_force_step r)) = length (forces r)"
  "k \<noteq> 1 \<Longrightarrow> forces (normal_force_step r) ! k = forces r ! k"
  "d_mot (normal_force_step r) ! 0 = d_mot r ! 0"
  by (simp_all add: normal_force_step_def set_velocity_def Let_def split: prod.splits)

lemma weight_step_fields [simp]:
  "prop_mass (weight_step r) = prop_mass r" "mass (weight_step r) = mass r"
  "engines (weight_step r) = engines r" "d_mot (weight_step r) = d_mot r"
  "length (forces (weight_step r)) = length (forces r)"
  "k \<noteq> 0 \<Longrightarrow> forces (weight_step r) ! k = forces r ! k"
  by (simp_all add: weight_step_def Let_def)

lemma drag_step_fields [simp]:
  "prop_mass (drag_step r) = prop_mass r" "mass (drag_step r) = mass r"
  "engines (drag_step r) = engines r" "d_mot (drag_step r) = d_mot r"
  "length (forces (drag_step r)) = length (forces r)"
  "k \<noteq> 2 \<Longrightarrow> forces (drag_step r) ! k = forces r ! k"
  by (simp_all add: drag_step_def Let_def)

lemma throttle_step_fields [simp]:
  "prop_mass (throttle_step err r) = prop_mass r" "mass (throttle_step err r) = mass r"
  "forces (throttle_step err r) = forces r" "d_mot (throttle_step err r) = d_mot r"
  by (simp_all add: throttle_step_def Let_def split: option.splits prod.splits)

lemma compute_fields [simp]:
  "prop_mass (compute_forces r) = prop_mass r" "mass (compute_forces r) = mass r"
  "engines (compute_forces r) = engines r" "forces (compute_forces r) = forces r"
  "prop_mass (compute_motion r) = prop_mass r" "mass (compute_motion r) = mass r"
  "engines (compute_motion r) = engines r" "forces (compute_motion r) = forces r"
  "prop_mass (post_compute r) = prop_mass r" "mass (post_compute r) = mass r"
  "engines (post_compute r) = engines r" "forces (post_compute r) = forces r"
  by (simp_all add: compute_forces_def compute_motion_def post_compute_def Let_def)

lemma thrust_loop_fields:
  "mass (snd (thrust_loop es (tn, r))) = mass r \<and>
   engines (snd (thrust_loop es (tn, r))) = engines r \<and>
   forces (snd (thrust_loop es (tn, r))) = forces r \<and>
   d_mot (snd (thrust_loop es (tn, r))) = d_mot r"
  by (induction es arbitrary: tn r) (simp_all add: Let_def drain_propellant_def)

lemma thrust_step_fields [simp]:
  "mass (thrust_step err r) = mass r" "engines (thrust_step err r) = engines r"
  "d_mot (thrust_step err r) = d_mot r"
  "length (forces (thrust_step err r)) = length (forces r)"
  "k \<noteq> 3 \<Longrightarrow> forces (thrust_step err r) ! k = forces r ! k"
  using thrust_loop_fields [of "engines r" "Some 0" r]
  by (simp_all add: thrust_step_def Let_def case_prod_beta)

lemma separation_step_fields [simp]:
  "prop_mass (fst (separation_step t (r, out))) = prop_mass r"
  "forces (fst (separation_step t (r, out))) = forces r"
  "d_mot (fst (separation_step t (r, out))) = d_mot r"
  by (simp_all add: separation_step_def set_mass_def Let_def)

lemma sim_step_depleted:
  assumes "d_le (prop_mass body) (Some 0)"
  shows "sim_step profile i (body, out) =
     (drag_step (weight_step (normal_force_step (pre_compute body))),
      out @ [No_propellant (real i * TIME_STEP)])"
  using assms by (simp add: sim_step_def get_prop_mass_def Let_def)

lemma sim_steps_depleted:
  "d_le (prop_mass body) (Some 0) \<Longrightarrow>
   snd (sim_steps profile js (body, out)) = out @ map (\<lambda>i. No_propellant (real i * TIME_STEP)) js \<and>
   prop_mass (fst (sim_steps profile js (body, out))) = prop_mass body \<and>
   mass (fst (sim_steps profile js (body, out))) = mass body \<and>
   engines (fst (sim_steps profile js (body, out))) = engines body \<and>
   forces (fst (sim_steps profile js (body, out))) ! 3 = forces body ! 3 \<and>
   d_mot (fst (sim_steps profile js (body, out))) ! 0 = d_mot body ! 0"
proof (induction js arbitrary: body out)
  case Nil
  then show ?case by (simp add: sim_steps_def)
next
  case (Cons j js)
  let ?b = "drag_step (weight_step (normal_force_step (pre_compute body)))"
  have d: "d_le (prop_mass ?b) (Some 0)" using Cons.prems by simp
  have s: "sim_steps profile (j # js) (body, out) =
           sim_steps profile js (?b, out @ [No_propellant (real j * TIME_STEP)])"
    by (simp add: sim_steps_def sim_step_depleted [OF Cons.prems])
  from Cons.IH [OF d, of "out @ [No_propellant (real j * TIME_STEP)]"]
  show ?case unfolding s by simp
qed

lemma sim_step_normal_slot:
  "forces (fst (sim_step profile i (body, out))) ! 1 =
   forces (normal_force_step (pre_compute body)) ! 1"
  by (simp add: sim_step_def Let_def case_prod_beta)

lemma not_above_refl: "not_above p p"
  by (simp add: not_above_def split: option.splits)

lemma not_above_trans: "not_above c b \<Longrightarrow> not_above b a \<Longrightarrow> not_above c a"
  by (auto simp: not_above_def split: option.splits)

lemma drain_amount_never_negative:
  assumes "wf_engine e"
  shows "never_negative (d_mul (d_div (get_prop_flow_rate e) (Some ACCEL_G)) (Some TIME_STEP))"
proof -
  from assms obtain T I where T: "get_max_thrust e = Some T" "0 \<le> T"
    and I: "get_isp e = Some I" "0 < I"
    by (auto simp: wf_engine_def split: option.splits)
  show ?thesis
  proof (cases "get_throttle e")
    case None
    then show ?thesis
      by (simp add: get_prop_flow_rate_def get_thrust_def d_mul_def d_div_def never_negative_def)
  next
    case (Some x)
    with assms have x: "0 \<le> x" by (simp add: wf_engine_def)
    have "0 \<le> x * T / (I * ACCEL_G) / ACCEL_G * TIME_STEP"
      using x T(2) I(2) by (simp add: ACCEL_G_def TIME_STEP_def)
    then show ?thesis using Some T(1) I
      by (simp add: get_prop_flow_rate_def get_thrust_def d_mul_def d_div_def never_negative_def
          ACCEL_G_def TIME_STEP_def)
  qed
qed

lemma drain_propellant_prop:
  assumes "never_negative d" and "never_negative (prop_mass r)"
  shows "not_above (prop_mass (drain_propellant d r)) (prop_mass r) \<and>
         never_negative (prop_mass (drain_propellant d r))"
  using assms
  by (auto simp: drain_propellant_def never_negative_def not_above_def d_sub_def d_lt_def Let_def
      split: option.splits)

lemma thrust_loop_prop:
  "list_all wf_engine es \<Longrightarrow> never_negative (prop_mass r) \<Longrightarrow>
   not_above (prop_mass (snd (thrust_loop es (tn, r)))) (prop_mass r) \<and>
   never_negative (prop_mass (snd (thrust_loop es (tn, r))))"
proof (induction es arbitrary: tn r)
  case Nil
  then show ?case by (simp add: not_above_refl)
next
  case (Cons e es)
  let ?d = "d_mul (d_div (get_prop_flow_rate e) (Some ACCEL_G)) (Some TIME_STEP)"
  let ?r = "drain_propellant ?d r"
  from Cons.prems have e: "wf_engine e" and es: "list_all wf_engine es" by simp_all
  from drain_propellant_prop [OF drain_amount_never_negative [OF e] Cons.prems(2)]
  have 1: "not_above (prop_mass ?r) (prop_mass r)" and 2: "never_negative (prop_mass ?r)"
    by simp_all
  from Cons.IH [OF es 2, of "d_add tn (get_thrust e)"]
  have 3: "not_above (prop_mass (snd (thrust_loop es (d_add tn (get_thrust e), ?r)))) (prop_mass ?r)"
    and 4: "never_negative (prop_mass (snd (thrust_loop es (d_add tn (get_thrust e), ?r))))"
    by simp_all
  from not_above_trans [OF 3 1] 4 show ?case by (simp add: Let_def)
qed

lemma thrust_step_prop:
  assumes "list_all wf_engine (engines r)" and "never_negative (prop_mass r)"
  shows "not_above (prop_mass (thrust_step err r)) (prop_mass r) \<and>
         never_negative (prop_mass (thrust_step err r))"
  using thrust_loop_prop [OF assms, of "Some 0"]
  by (simp add: thrust_step_def Let_def case_prod_beta)

lemma set_throttle_wf: "wf_engine e \<Longrightarrow> wf_engine (set_throttle x e)"
  by (auto simp: wf_engine_def set_throttle_def d_lt_def d_gt_def split: option.splits)

lemma throttle_step_wf:
  "list_all wf_engine (engines r) \<Longrightarrow> list_all wf_engine (engines (throttle_step err r))"
  by (auto simp: throttle_step_def Let_def list_all_iff set_throttle_wf split: option.splits)

lemma separation_step_wf:
  "list_all wf_engine (engines r) \<Longrightarrow>
   list_all wf_engine (engines (fst (separation_step t (r, out))))"
  by (auto simp: separation_step_def set_mass_def Let_def list_all_iff set_throttle_wf)

lemma separation_step_mass:
  "mass (fst (separation_step t (r, out))) =
     (if t = 155
      then d_sub (d_sub (d_sub (d_sub (get_mass r) (Some stage_2_dry_mass_kg))
                   (Some stage_2_fuel_mass_kg)) (Some payload_mass_kg)) (prop_mass r)
      else mass r)"
  by (simp add: separation_step_def set_mass_def Let_def)

lemma separation_mass_number:
  "mass r = Some m \<Longrightarrow> prop_mass r = Some p \<Longrightarrow>
   d_sub (d_sub (d_sub (d_sub (get_mass r) (Some stage_2_dry_mass_kg))
            (Some stage_2_fuel_mass_kg)) (Some payload_mass_kg)) (prop_mass r) =
     Some (m - upper_stage_mass)"
  by (simp add: get_mass_def d_add_def d_sub_def upper_stage_mass_def)

text \<open>A step with propellant left runs every phase.\<close>

lemma sim_step_live:
  assumes "\<not> d_le (prop_mass body) (Some 0)"
  shows "fst (sim_step profile i (body, out)) =
     (let b = drag_step (weight_step (normal_force_step (pre_compute body)));
          err = velocity_error profile (real i * TIME_STEP) b
      in post_compute (compute_motion (compute_forces (thrust_step err
           (fst (separation_step (real i * TIME_STEP) (throttle_step err b, out)))))))"
  using assms by (simp add: sim_step_def get_prop_mass_def Let_def case_prod_beta)

lemma sim_step_inv:
  assumes "rocket_inv body"
  shows "rocket_inv (fst (sim_step profile i (body, out))) \<and>
         not_above (prop_mass (fst (sim_step profile i (body, out)))) (prop_mass body)"
proof (cases "d_le (prop_mass body) (Some 0)")
  case True
  with assms show ?thesis
    by (simp add: sim_step_depleted rocket_inv_def not_above_refl)
next
  case False
  let ?b = "drag_step (weight_step (normal_force_step (pre_compute body)))"
  let ?err = "velocity_error profile (real i * TIME_STEP) ?b"
  let ?s = "fst (separation_step (real i * TIME_STEP) (throttle_step ?err ?b, out))"
  from assms have "list_all wf_engine (engines ?b)" by (simp add: rocket_inv_def)
  then have "list_all wf_engine (engines (throttle_step ?err ?b))" by (rule throttle_step_wf)
  then have w: "list_all wf_engine (engines ?s)" by (rule separation_step_wf)
  have p: "prop_mass ?s = prop_mass body" by simp
  with assms have n: "never_negative (prop_mass ?s)" by (simp add: rocket_inv_def)
  from thrust_step_prop [OF w n, of ?err] p w
  show ?thesis
    by (simp add: sim_step_live [OF False] Let_def rocket_inv_def)
qed

lemma sim_step_mass:
  "mass (fst (sim_step profile i (body, out))) =
     (if real i * TIME_STEP = 155 \<and> \<not> d_le (prop_mass body) (Some 0)
      then d_sub (d_sub (d_sub (d_sub (get_mass body) (Some stage_2_dry_mass_kg))
                   (Some stage_2_fuel_mass_kg)) (Some payload_mass_kg)) (prop_mass body)
      else mass body)"
proof (cases "d_le (prop_mass body) (Some 0)")
  case True
  then show ?thesis by (simp add: sim_step_depleted)
next
  case False
  then show ?thesis
    by (simp add: sim_step_live [OF False] Let_def separation_step_mass get_mass_def)
qed

lemma sim_steps_inv:
  "rocket_inv body \<Longrightarrow>
   rocket_inv (fst (sim_steps profile js (body, out))) \<and>
   not_above (prop_mass (fst (sim_steps profile js (body, out)))) (prop_mass body) \<and>
   (155 \<notin> set js \<longrightarrow> mass (fst (sim_steps profile js (body, out))) = mass body)"
proof (induction js arbitrary: body out)
  case Nil
  then show ?case by (simp add: sim_steps_def not_above_refl)
next
  case (Cons j js)
  obtain b o' where s: "sim_step profile j (body, out) = (b, o')"
    by (cases "sim_step profile j (body, out)")
  from sim_step_inv [OF Cons.prems, of profile j out] s
  have b: "rocket_inv b" and nb: "not_above (prop_mass b) (prop_mass body)" by simp_all
  have mb: "j \<noteq> 155 \<Longrightarrow> mass b = mass body"
    using sim_step_mass [of profile j body out] s by (simp add: TIME_STEP_def)
  have e: "sim_steps profile (j # js) (body, out) = sim_steps profile js (b, o')"
    by (simp add: sim_steps_def s)
  from Cons.IH [OF b, of o'] nb mb show ?case
    unfolding e by (auto intro: not_above_trans)
qed

lemma initial_rocket_inv:
  "never_negative throttle0 \<Longrightarrow> \<not> d_gt throttle0 (Some 1) \<Longrightarrow> rocket_inv (initial_rocket throttle0)"
  by (auto simp: rocket_inv_def initial_rocket_def Let_def wf_engine_def never_negative_def
      list_all_iff d_gt_def d_lt_def MERLIN_MAX_THRUST_def MERLIN_ISP_def stage_1_fuel_mass_kg_def
      split: option.splits)

lemma pad_fields:
  "mass pad = Some 128970" "prop_mass pad = Some 395700" "length (forces pad) = 4"
  "d_mot pad = [zero_vector, zero_vector, zero_vector, zero_vector]"
  "forces pad = [\<lparr>get_x = Some 0, get_y = Some (- (ACCEL_G * 524670)), get_z = Some 0\<rparr>,
                 \<lparr>get_x = Some 0, get_y = Some (ACCEL_G * 524670), get_z = Some 0\<rparr>,
                 zero_vector, zero_vector]"
  "fdb_time_step pad = 1"
  by (simp_all add: pad_def initial_rocket_def Let_def get_mass_def d_add_def d_mul_def
      stage_1_dry_mass_kg_def stage_1_fuel_mass_kg_def stage_2_dry_mass_kg_def
      stage_2_fuel_mass_kg_def payload_mass_kg_def TIME_STEP_def numeral_eq_Suc)

lemma pad_inv: "rocket_inv pad"
  unfolding pad_def by (rule initial_rocket_inv) (simp_all add: never_negative_def d_gt_def d_lt_def)

lemma downward_values:
  "downward zero_vector = 0"
  "downward \<lparr>get_x = Some 0, get_y = Some (- (ACCEL_G * 524670)), get_z = Some 0\<rparr> = ACCEL_G * 524670"
  by (simp_all add: downward_def zero_vector_def ACCEL_G_def)

text \<open>
  Claim C5, as stated, at the state before the first step: the altitude is exactly zero
  and the weight points down, yet the step leaves the zero vector in the normal force
  slot.
\<close>

theorem normal_force_at_zero_altitude_counterexample:
  "get_y (d_mot pad ! 0) = Some 0 \<and>
   d_lt (get_y (forces pad ! 0)) (Some 0) \<and>
   forces (fst (sim_step no_profile 0 (pad, []))) ! 1 = zero_vector"
proof -
  have 1: "get_y (d_mot pad ! 0) = Some 0" by (simp add: pad_fields zero_vector_def)
  have 2: "d_lt (get_y (forces pad ! 0)) (Some 0)"
    by (simp add: pad_fields d_lt_def ACCEL_G_def)
  have "length (forces (pre_compute pad)) = 4" by (simp add: pad_fields)
  from normal_force_slot [OF this] 1
  have "forces (normal_force_step (pre_compute pad)) ! 1 = zero_vector"
    by (simp add: d_lt_def)
  then have 3: "forces (fst (sim_step no_profile 0 (pad, []))) ! 1 = zero_vector"
    by (simp only: sim_step_normal_slot)
  from 1 2 3 show ?thesis by blast
qed

text \<open>
  Claim C5, amended: the normal force is active exactly when the altitude is below zero
  (\<open>p.y < 0\<close>, strictly). It is then the negative sum of the negative vertical components
  of the forces in the slots 0, 2 and 3 as the step finds them, and if the vertical
  velocity is negative too the velocity is reset to the zero vector. At an altitude
  \<open>\<ge> 0\<close> (or NaN) the normal force slot is the zero vector.
\<close>

theorem normal_force_below_ground:
  assumes "length (forces body) = 4"
  shows "forces (fst (sim_step profile i (body, out))) ! 1 =
           (if d_lt (get_y (d_mot body ! 0)) (Some 0)
            then \<lparr>get_x = Some 0,
                  get_y = Some (downward (forces body ! 0) + downward (forces body ! 2)
                                + downward (forces body ! 3)),
                  get_z = Some 0\<rparr>
            else zero_vector) \<and>
         d_mot (normal_force_step (pre_compute body)) =
           (if d_lt (get_y (d_mot body ! 0)) (Some 0) \<and> d_lt (get_y (d_mot body ! 1)) (Some 0)
            then (d_mot body)[1 := zero_vector] else d_mot body)"
proof -
  have a: "forces (normal_force_step (pre_compute body)) ! 1 =
           (if d_lt (get_y (d_mot body ! 0)) (Some 0)
            then \<lparr>get_x = Some 0,
                  get_y = Some (downward (forces body ! 0) + downward (forces body ! 2)
                                + downward (forces body ! 3)),
                  get_z = Some 0\<rparr>
            else zero_vector)"
    using normal_force_slot [of "pre_compute body"] assms by simp
  have b: "d_mot (normal_force_step (pre_compute body)) =
           (if d_lt (get_y (d_mot body ! 0)) (Some 0) \<and> d_lt (get_y (d_mot body ! 1)) (Some 0)
            then (d_mot body)[1 := zero_vector] else d_mot body)"
    using normal_force_velocity [of "pre_compute body"] by simp
  show ?thesis unfolding sim_step_normal_slot using a b by (rule conjI)
qed

theorem normal_force_below_ground_witness:
  "length (forces sunk) = 4 \<and>
   forces (fst (sim_step no_profile 0 (sunk, []))) ! 1 =
     \<lparr>get_x = Some 0, get_y = Some (ACCEL_G * 524670), get_z = Some 0\<rparr> \<and>
   d_mot (normal_force_step (pre_compute sunk)) ! 1 = zero_vector \<and>
   forces (fst (sim_step no_profile 0 (pad, []))) ! 1 = zero_vector"
proof -
  have l: "length (forces sunk) = 4" "length (forces pad) = 4" by (simp_all add: sunk_def pad_fields)
  have f: "forces sunk = forces pad" by (simp add: sunk_def)
  have d: "d_mot sunk = [\<lparr>get_x = Some 0, get_y = Some (- 1), get_z = Some 0\<rparr>,
                          \<lparr>get_x = Some 0, get_y = Some (- 2), get_z = Some 0\<rparr>,
                          zero_vector, zero_vector]"
    by (simp add: sunk_def)
  have n: "d_lt (get_y (d_mot sunk ! 0)) (Some 0)" "d_lt (get_y (d_mot sunk ! 1)) (Some 0)"
    "\<not> d_lt (get_y (d_mot pad ! 0)) (Some 0)"
    by (simp_all add: d pad_fields d_lt_def zero_vector_def)
  have w: "downward (forces sunk ! 0) + downward (forces sunk ! 2) + downward (forces sunk ! 3) =
        ACCEL_G * 524670"
    by (simp add: f pad_fields downward_values numeral_2_eq_2 numeral_3_eq_3)
  from normal_force_below_ground [OF l(1), of no_profile 0 "[]"] n(1,2) w
  have 1: "forces (fst (sim_step no_profile 0 (sunk, []))) ! 1 =
     \<lparr>get_x = Some 0, get_y = Some (ACCEL_G * 524670), get_z = Some 0\<rparr>"
    and 2: "d_mot (normal_force_step (pre_compute sunk)) = (d_mot sunk)[1 := zero_vector]"
    by simp_all
  from 2 have 3: "d_mot (normal_force_step (pre_compute sunk)) ! 1 = zero_vector"
    by (simp add: sunk_def)
  from normal_force_below_ground [OF l(2), of no_profile 0 "[]"] n(3)
  have 4: "forces (fst (sim_step no_profile 0 (pad, []))) ! 1 = zero_vector" by simp
  from l(1) 1 3 4 show ?thesis by blast
qed

lemma hover_fields:
  "mass hover = Some 128970" "prop_mass hover = Some 0" "forces hover = forces pad"
  "d_mot hover = [\<lparr>get_x = Some 0, get_y = Some 1000, get_z = Some 0\<rparr>, zero_vector,
                  zero_vector, zero_vector]"
  "fdb_time_step hover = 1" "engines hover = engines pad"
  by (simp_all add: hover_def pad_fields pad_def [symmetric])

lemma hover_forces:
  "forces (drag_step (weight_step (normal_force_step (pre_compute hover)))) =
     [\<lparr>get_x = Some 0, get_y = Some (- (ACCEL_G * 128970)), get_z = Some 0\<rparr>,
      zero_vector, zero_vector, zero_vector]"
  by (simp add: drag_step_def weight_step_def normal_force_step_def pre_compute_def
      hover_fields pad_fields get_mass_def magnitude_def zero_vector_def Let_def
      d_lt_def d_eq_def d_add_def d_mul_def d_sqrt_def)

lemma hover_d_mot:
  "d_mot (normal_force_step (pre_compute hover)) = d_mot hover"
proof -
  have "\<not> d_lt (get_y (d_mot (pre_compute hover) ! 0)) (Some 0)"
    by (simp add: hover_fields d_lt_def)
  then have "d_mot (normal_force_step (pre_compute hover)) = d_mot (pre_compute hover)"
    by (simp only: normal_force_velocity) simp
  then show ?thesis by simp
qed

text \<open>
  Claim C4, as stated, for the rocket at 1000 m with no propellant: the step leaves the
  derivatives of motion as they were, although aggregating the forces and computing the
  motion from the state at the \<open>continue\<close> would give the vertical velocity \<open>-g\<close>.
\<close>

theorem depleted_step_counterexample:
  "d_le (prop_mass hover) (Some 0) \<and>
   d_mot (fst (sim_step no_profile 0 (hover, []))) = d_mot hover \<and>
   get_y (d_mot hover ! 1) = Some 0 \<and>
   get_y (d_mot (post_compute (compute_motion (compute_forces
      (drag_step (weight_step (normal_force_step (pre_compute hover))))))) ! 1) = Some (- ACCEL_G)"
proof -
  let ?b = "drag_step (weight_step (normal_force_step (pre_compute hover)))"
  have 1: "d_le (prop_mass hover) (Some 0)" by (simp add: hover_fields d_le_def)
  have 2: "d_mot (fst (sim_step no_profile 0 (hover, []))) = d_mot hover"
    by (simp add: sim_step_depleted [OF 1] hover_d_mot)
  have 3: "get_y (d_mot hover ! 1) = Some 0" by (simp add: hover_fields zero_vector_def)
  have m: "get_mass ?b = Some 128970" by (simp add: get_mass_def hover_fields d_add_def)
  have t: "fdb_time_step ?b = 1"
    by (simp add: drag_step_def weight_step_def normal_force_step_def pre_compute_def
        set_velocity_def hover_fields Let_def)
  have db: "d_mot ?b = d_mot hover" by (simp add: hover_d_mot)
  have cf: "d_mot (compute_forces ?b) =
        [\<lparr>get_x = Some 0, get_y = Some 1000, get_z = Some 0\<rparr>, zero_vector,
         \<lparr>get_x = Some 0, get_y = Some (- ACCEL_G), get_z = Some 0\<rparr>, zero_vector]"
    unfolding compute_forces_def Let_def hover_forces m db
    by (simp add: hover_fields vector_add_def zero_vector_def d_add_def d_div_def)
  have tf: "fdb_time_step (compute_forces ?b) = 1" using t by (simp add: compute_forces_def Let_def)
  have 4: "get_y (d_mot (post_compute (compute_motion (compute_forces ?b))) ! 1) = Some (- ACCEL_G)"
    unfolding post_compute_def compute_motion_def Let_def cf tf
    by (simp add: vector_add_def vector_scale_def zero_vector_def d_add_def d_mul_def)
  from 1 2 3 4 show ?thesis by blast
qed

text \<open>
  Claim C4, amended: in a step with remaining propellant \<open>\<le> 0\<close> the condition is
  reported and the rest of the step is skipped: the throttle command, the stage
  separation, thrust and propellant flow, the aggregation of the forces, the motion and
  the commit. The snapshot and the slots of normal force, weight and drag are from
  before the check. The loop goes on: every later step is reported and skipped in the
  same way, so the masses, the engines, the thrust slot and the position stay as they
  are to the end of the run.
\<close>

theorem depleted_step_skipped:
  assumes "d_le (prop_mass body) (Some 0)"
  shows "sim_step profile i (body, out) =
           (drag_step (weight_step (normal_force_step (pre_compute body))),
            out @ [No_propellant (real i * TIME_STEP)]) \<and>
         snd (sim_steps profile js (body, out)) =
           out @ map (\<lambda>i. No_propellant (real i * TIME_STEP)) js \<and>
         prop_mass (fst (sim_steps profile js (body, out))) = prop_mass body \<and>
         mass (fst (sim_steps profile js (body, out))) = mass body \<and>
         engines (fst (sim_steps profile js (body, out))) = engines body \<and>
         forces (fst (sim_steps profile js (body, out))) ! 3 = forces body ! 3 \<and>
         d_mot (fst (sim_steps profile js (body, out))) ! 0 = d_mot body ! 0"
  using sim_step_depleted [OF assms, of profile i out]
    sim_steps_depleted [OF assms, of profile js out]
  by (rule conjI)

theorem depleted_step_skipped_witness:
  "d_le (prop_mass hover) (Some 0) \<and>
   snd (sim_step no_profile 7 (hover, [])) = [No_propellant 7] \<and>
   snd (sim_steps no_profile [7, 8] (hover, [])) = [No_propellant 7, No_propellant 8] \<and>
   d_mot (fst (sim_steps no_profile [7, 8] (hover, []))) ! 0 =
     \<lparr>get_x = Some 0, get_y = Some 1000, get_z = Some 0\<rparr>"
proof -
  have 1: "d_le (prop_mass hover) (Some 0)" by (simp add: hover_fields d_le_def)
  from depleted_step_skipped [OF 1, of no_profile 7 "[]" "[7, 8]"] 1
  show ?thesis by (simp add: hover_fields TIME_STEP_def)
qed

lemma run_split:
  "[0..<400] = [0..<155] @ 155 # [156..<400]"
proof -
  have "[0..<155 + 245] = [0..<155] @ [155..<155 + 245]"
    by (rule upt_add_eq_append) simp
  moreover have "[155..<155 + 245] = 155 # [Suc 155..<155 + 245]"
    by (rule upt_conv_Cons) simp
  ultimately show ?thesis by (simp del: upt_rec_numeral)
qed

text \<open>
  Claim C8: from a state whose engines have throttles in \<open>[0, 1]\<close> and whose propellant
  mass is not negative, as the initial state is, after any steps the propellant mass is
  not above what it was and not negative. The mass without the propellant changes in no
  step but the one at \<open>t = 155\<close>, where it drops by exactly the upper-stage mass if the
  step is not skipped for lack of propellant; the run takes that step once, between the
  steps before and after it.
\<close>

theorem mass_changes:
  assumes "rocket_inv body"
  shows "rocket_inv (fst (sim_steps profile js (body, out))) \<and>
         not_above (prop_mass (fst (sim_steps profile js (body, out)))) (prop_mass body) \<and>
         never_negative (prop_mass (fst (sim_steps profile js (body, out)))) \<and>
         (155 \<notin> set js \<longrightarrow> mass (fst (sim_steps profile js (body, out))) = mass body) \<and>
         (mass body = Some m \<and> prop_mass body = Some p \<longrightarrow>
            mass (fst (sim_step profile i (body, out))) =
              (if i = 155 \<and> 0 < p then Some (m - upper_stage_mass) else Some m)) \<and>
         (never_negative throttle0 \<and> \<not> d_gt throttle0 (Some 1) \<longrightarrow>
            rocket_inv (initial_rocket throttle0)) \<and>
         run_test_rocket profile throttle0 =
           sim_steps profile [156..<400]
             (sim_step profile 155 (sim_steps profile [0..<155] (initial_rocket throttle0, [])))"
proof (intro conjI impI)
  from sim_steps_inv [OF assms, of profile js out]
  show "rocket_inv (fst (sim_steps profile js (body, out)))"
    and "not_above (prop_mass (fst (sim_steps profile js (body, out)))) (prop_mass body)"
    and "never_negative (prop_mass (fst (sim_steps profile js (body, out))))"
    by (simp_all add: rocket_inv_def)
next
  assume "155 \<notin> set js"
  with sim_steps_inv [OF assms, of profile js out]
  show "mass (fst (sim_steps profile js (body, out))) = mass body" by blast
next
  assume "mass body = Some m \<and> prop_mass body = Some p"
  then have mp: "mass body = Some m" "prop_mass body = Some p" by simp_all
  show "mass (fst (sim_step profile i (body, out))) =
              (if i = 155 \<and> 0 < p then Some (m - upper_stage_mass) else Some m)"
    unfolding sim_step_mass separation_mass_number [OF mp]
    by (simp add: mp TIME_STEP_def d_le_def not_le)
next
  assume "never_negative throttle0 \<and> \<not> d_gt throttle0 (Some 1)"
  then show "rocket_inv (initial_rocket throttle0)" by (simp add: initial_rocket_inv)
next
  show "run_test_rocket profile throttle0 =
           sim_steps profile [156..<400]
             (sim_step profile 155 (sim_steps profile [0..<155] (initial_rocket throttle0, [])))"
    unfolding run_test_rocket_def sim_steps_def run_split by simp
qed

theorem mass_changes_witness:
  "rocket_inv pad \<and>
   never_negative (prop_mass (fst (sim_steps no_profile [0, 1] (pad, [])))) \<and>
   not_above (prop_mass (fst (sim_steps no_profile [0, 1] (pad, [])))) (Some 395700) \<and>
   mass (fst (sim_steps no_profile [0, 1] (pad, []))) = Some 128970 \<and>
   mass (fst (sim_step no_profile 155 (pad, []))) = Some 25600 \<and>
   mass (fst (sim_step no_profile 154 (pad, []))) = Some 128970"
proof -
  have mp: "mass pad = Some 128970 \<and> prop_mass pad = Some 395700" by (simp add: pad_fields)
  have n: "155 \<notin> set [0, 1::nat]" by simp
  from mass_changes [OF pad_inv, of no_profile "[0, 1]" "[]" 128970 395700 155 "Some 0"]
    mass_changes [OF pad_inv, of no_profile "[0, 1]" "[]" 128970 395700 154 "Some 0"] mp n pad_inv
  show ?thesis
    by (simp add: pad_fields upper_stage_mass_def stage_2_dry_mass_kg_def
        stage_2_fuel_mass_kg_def payload_mass_kg_def)
qed

end
